theory Spec2Isabelle
  imports Complex_Main
begin

section \<open>Numbers, colours and parameters\<close>

text \<open>
  The component \<^verbatim>\<open>PixelGridBackground.tsx\<close> computes with JavaScript numbers. They are
  modelled by \<^typ>\<open>real\<close> (grid sizes and colour channels, which the code only ever
  produces as integers, by \<^typ>\<open>int\<close>), and the arithmetic of a frame is exact. The
  rounding of the \<^verbatim>\<open>Float32Array\<close> store is modelled where a stored activation is read
  back frame after frame (\<open>activationAfter\<close> below); one frame (\<open>draw\<close>) keeps the value
  it computes. Where the source can produce a value that is no real number (a division
  of zero by zero, a power that is infinite) the model says so explicitly instead of
  relying on the value HOL gives to \<open>x / 0\<close>.
\<close>

record RGB =
  rgb_r :: int
  rgb_g :: int
  rgb_b :: int

text \<open>
  The character class \<^verbatim>\<open>[a-f\d]\<close> under the flag \<^verbatim>\<open>i\<close>. Strings are lists of 8-bit
  characters; the characters of a JavaScript string beyond them are not in the class
  either.
\<close>

definition isHexDigit :: "char \<Rightarrow> bool" where
  "isHexDigit c = (c \<in> set ''0123456789abcdefABCDEF'')"

text \<open>One group \<^verbatim>\<open>([a-f\d]{2})\<close>: two characters of the class, and the rest of the input.\<close>

fun twoHex :: "string \<Rightarrow> (string \<times> string) option" where
  "twoHex (a # b # rest) = (if isHexDigit a \<and> isHexDigit b then Some ([a, b], rest) else None)"
| "twoHex _ = None"

text \<open>The three groups and the anchor \<^verbatim>\<open>$\<close> (end of input: the regex has no flag \<^verbatim>\<open>m\<close>).\<close>

definition threeGroups :: "string \<Rightarrow> (string \<times> string \<times> string) option" where
  "threeGroups s =
     (case twoHex s of
        None \<Rightarrow> None
      | Some (g1, s1) \<Rightarrow>
          (case twoHex s1 of
             None \<Rightarrow> None
           | Some (g2, s2) \<Rightarrow>
               (case twoHex s2 of
                  None \<Rightarrow> None
                | Some (g3, s3) \<Rightarrow> if s3 = [] then Some (g1, g2, g3) else None)))"

text \<open>
  \<^verbatim>\<open>/^#?([a-f\d]{2})([a-f\d]{2})([a-f\d]{2})$/i.exec(hex)\<close>: the optional \<^verbatim>\<open>#\<close> is
  greedy, and the matcher backtracks to the empty alternative when the rest fails.
\<close>

definition hexExec :: "string \<Rightarrow> (string \<times> string \<times> string) option" where
  "hexExec hex =
     (case hex of
        [] \<Rightarrow> threeGroups hex
      | c # cs \<Rightarrow>
          if c = CHR ''#'' then
            (case threeGroups cs of Some m \<Rightarrow> Some m | None \<Rightarrow> threeGroups hex)
          else threeGroups hex)"

definition hexDigitValue :: "char \<Rightarrow> int" where
  "hexDigitValue c =
     (let n = int (of_char c) in
      if n \<le> 57 then n - 48 else if n \<le> 70 then n - 55 else n - 87)"

text \<open>\<^verbatim>\<open>parseInt(s, 16)\<close> on a string of hexadecimal digits (the only strings a group holds).\<close>

definition parseInt16 :: "string \<Rightarrow> int" where
  "parseInt16 s = foldl (\<lambda>acc c. 16 * acc + hexDigitValue c) 0 s"

definition hexToRgb :: "string \<Rightarrow> RGB" where
  "hexToRgb hex =
     (case hexExec hex of
        Some (g1, g2, g3) \<Rightarrow>
          \<lparr>rgb_r = parseInt16 g1, rgb_g = parseInt16 g2, rgb_b = parseInt16 g3\<rparr>
      | None \<Rightarrow> \<lparr>rgb_r = 0, rgb_g = 0, rgb_b = 0\<rparr>)"

text \<open>
  The syntax of a colour string in words: an optional \<^verbatim>\<open>#\<close> followed by exactly six
  hexadecimal digits.
\<close>

definition sixHexDigits :: "string \<Rightarrow> bool" where
  "sixHexDigits ds = (length ds = 6 \<and> list_all isHexDigit ds)"

definition hexColorSyntax :: "string \<Rightarrow> bool" where
  "hexColorSyntax s = (sixHexDigits s \<or> (s \<noteq> [] \<and> hd s = CHR ''#'' \<and> sixHexDigits (tl s)))"

text \<open>\<^verbatim>\<open>params\<close> (lines 32 to 80): the tunable parameters, with the values the source gives them.\<close>

record Params =
  pixelSize :: real
  gap :: real
  bgColorStr :: string
  baseGrayStr :: string
  accentYellowStr :: string
  accentPinkStr :: string
  accentYellowProb :: real
  accentPinkProb :: real
  maskHeight :: real
  maskFeatherY :: real
  macroScale :: real
  macroVx :: real
  macroVy :: real
  macroTimeScale :: real
  macroThreshold :: real
  macroFeather :: real
  microScale :: real
  microTimeScale :: real
  microThreshold :: real
  microFeather :: real
  biasStrength :: real
  accentMixStrength :: real
  mixGamma :: real
  smoothing :: real
  baseAlpha :: real
  activeAlphaBoost :: real
  enableAnimation :: bool
  debugView :: bool

definition defaultParams :: Params where
  "defaultParams =
     \<lparr>pixelSize = 3, gap = 5,
      bgColorStr = ''#F6F2EF'', baseGrayStr = ''#D9D7D2'',
      accentYellowStr = ''#F5F7D9'', accentPinkStr = ''#FFEAEA'',
      accentYellowProb = 25 / 100, accentPinkProb = 1 / 10,
      maskHeight = 1, maskFeatherY = 2 / 10,
      macroScale = 12 / 1000, macroVx = 25 / 10, macroVy = - 1,
      macroTimeScale = 3 / 1000, macroThreshold = 35 / 100, macroFeather = 15 / 100,
      microScale = 8 / 100, microTimeScale = 1 / 100, microThreshold = 2 / 10,
      microFeather = 2 / 10,
      biasStrength = 1 / 2,
      accentMixStrength = 1, mixGamma = 18 / 10, smoothing = 15 / 100,
      baseAlpha = 25 / 100, activeAlphaBoost = 35 / 100,
      enableAnimation = True, debugView = False\<rparr>"

record Palette =
  bg :: RGB
  gray :: RGB
  yellow :: RGB
  pink :: RGB

text \<open>
  \<^verbatim>\<open>gridData\<close> (lines 97 to 104). \<open>targetTypes\<close> is a \<^verbatim>\<open>Uint8Array\<close> that only ever
  receives 0 (gray), 1 (yellow) or 2 (pink); \<open>biases\<close> and \<open>activations\<close> are
  \<^verbatim>\<open>Float32Array\<close>s.
\<close>

record GridData =
  cols :: int
  rows :: int
  targetTypes :: "nat list"
  biases :: "real list"
  activations :: "real list"

text \<open>The three references a component instance keeps.\<close>

record Component =
  params :: Params
  palette :: Palette
  gridData :: "GridData option"

definition initialComponent :: Component where
  "initialComponent =
     \<lparr>params = defaultParams,
      palette = \<lparr>bg = \<lparr>rgb_r = 0, rgb_g = 0, rgb_b = 0\<rparr>, gray = \<lparr>rgb_r = 0, rgb_g = 0, rgb_b = 0\<rparr>,
                 yellow = \<lparr>rgb_r = 0, rgb_g = 0, rgb_b = 0\<rparr>, pink = \<lparr>rgb_r = 0, rgb_g = 0, rgb_b = 0\<rparr>\<rparr>,
      gridData = None\<rparr>"

text \<open>
  What the component takes from outside the repository: the library \<^verbatim>\<open>seedrandom\<close> (a
  generator made from a seed string is the sequence of the numbers its calls return, in
  \<open>[0, 1)\<close>), the library \<^verbatim>\<open>simplex-noise\<close> (a noise function made from a generator),
  the media query behind \<^verbatim>\<open>prefersReducedMotion\<close>, and whether the canvas and its 2D
  context exist.
\<close>

record Env =
  seedrandom :: "string \<Rightarrow> nat \<Rightarrow> real"
  createNoise3D :: "(nat \<Rightarrow> real) \<Rightarrow> real \<Rightarrow> real \<Rightarrow> real \<Rightarrow> real"
  prefersReducedMotion :: bool
  canvasReady :: bool

definition macroNoise :: "Env \<Rightarrow> real \<Rightarrow> real \<Rightarrow> real \<Rightarrow> real" where
  "macroNoise env = createNoise3D env (seedrandom env ''macro'')"

definition microNoise :: "Env \<Rightarrow> real \<Rightarrow> real \<Rightarrow> real \<Rightarrow> real" where
  "microNoise env = createNoise3D env (seedrandom env ''micro'')"

text \<open>
  A stand-in for the two libraries, to evaluate the model on examples: the generator of
  every seed returns 0, 1/4, 1/2, 3/4, 0, ... and the noise is 1 everywhere.
\<close>

definition exampleEnv :: Env where
  "exampleEnv =
     \<lparr>seedrandom = (\<lambda>seed k. real (k mod 4) / 4),
      createNoise3D = (\<lambda>rng x y z. 1),
      prefersReducedMotion = False,
      canvasReady = True\<rparr>"

text \<open>
  What the model can end with instead of a result: the \<^verbatim>\<open>RangeError\<close> a typed array
  constructor throws on a negative or infinite length, and \<open>NonFinite\<close> where the source
  goes on with \<^verbatim>\<open>NaN\<close>, \<^verbatim>\<open>Infinity\<close> or \<^verbatim>\<open>undefined\<close> in a number (no exception is
  thrown there: the model of numbers as reals ends).
\<close>

datatype fault = RangeError | NonFinite

text \<open>An array read: \<^verbatim>\<open>undefined\<close> outside the array.\<close>

definition readAt :: "'a list \<Rightarrow> nat \<Rightarrow> 'a option" where
  "readAt xs i = (if i < length xs then Some (xs ! i) else None)"

section \<open>Building the grid\<close>

definition updatePalette :: "Component \<Rightarrow> Component" where
  "updatePalette st =
     st\<lparr>palette :=
          \<lparr>bg = hexToRgb (bgColorStr (params st)),
           gray = hexToRgb (baseGrayStr (params st)),
           yellow = hexToRgb (accentYellowStr (params st)),
           pink = hexToRgb (accentPinkStr (params st))\<rparr>\<rparr>"

definition radius :: int where
  "radius = 1"

text \<open>
  Lines 138 to 159: the two loops over \<open>dy\<close> and \<open>dx\<close>. The \<^verbatim>\<open>break\<close>s only stop the
  search at the first accent found. A read outside the array gives \<^verbatim>\<open>undefined\<close>, which
  is \<^verbatim>\<open>!== 0\<close>.
\<close>

definition hasAccentNeighbor :: "int \<Rightarrow> int \<Rightarrow> nat list \<Rightarrow> int \<Rightarrow> int \<Rightarrow> bool" where
  "hasAccentNeighbor c r types x y =
     list_ex (\<lambda>dy.
       list_ex (\<lambda>dx.
         let nx = x + dx; ny = y + dy
         in nx \<ge> 0 \<and> nx < c \<and> ny \<ge> 0 \<and> ny < r \<and> readAt types (nat (ny * c + nx)) \<noteq> Some 0)
       [- radius .. (if dy = 0 then - 1 else radius)])
     [- radius .. 0]"

text \<open>
  The body of the loop over the cells (lines 131 to 169), on the grid under construction
  and the number \<open>k\<close> of calls made to the generator so far. \<open>i\<close> is never negative, so
  \<^verbatim>\<open>i % cols\<close> is the remainder by the absolute value of \<open>cols\<close>, and
  \<^verbatim>\<open>Math.floor(i / cols)\<close> is the quotient rounded down.
\<close>

definition initCell :: "(nat \<Rightarrow> real) \<Rightarrow> Params \<Rightarrow> nat \<Rightarrow> GridData \<times> nat \<Rightarrow> GridData \<times> nat" where
  "initCell rng p i s =
     (let g = fst s; k = snd s;
          bs = (biases g)[i := rng k * 2 - 1];
          x = int i mod \<bar>cols g\<bar>;
          y = int i div cols g;
          near = hasAccentNeighbor (cols g) (rows g) (targetTypes g) x y;
          ty = (if \<not> near then
                  (let r = rng (k + 1)
                   in if r < accentYellowProb p then 1
                      else if r < accentYellowProb p + accentPinkProb p then 2 else 0)
                else 0);
          k' = (if \<not> near then k + 2 else k + 1)
      in (g\<lparr>targetTypes := (targetTypes g)[i := ty],
            biases := bs,
            activations := (activations g)[i := 0]\<rparr>, k'))"

function initLoop :: "(nat \<Rightarrow> real) \<Rightarrow> Params \<Rightarrow> int \<Rightarrow> nat \<Rightarrow> GridData \<times> nat \<Rightarrow> GridData \<times> nat" where
  "initLoop rng p numCells i s =
     (if int i < numCells then initLoop rng p numCells (i + 1) (initCell rng p i s) else s)"
  by pat_completeness auto
termination
  by (relation "measure (\<lambda>(rng, p, numCells, i, s). nat (numCells - int i))") auto

declare initLoop.simps [simp del]

text \<open>
  \<^verbatim>\<open>initGrid\<close> (lines 115 to 173). With a pitch of 0 the quotients are infinite or
  \<^verbatim>\<open>NaN\<close>: the length of the arrays is then infinite (a \<^verbatim>\<open>RangeError\<close>) unless the width
  or the height is 0, where the grid gets dimensions that are no numbers. A negative
  length is a \<^verbatim>\<open>RangeError\<close> of \<^verbatim>\<open>new Uint8Array\<close> (so is a length beyond what the
  engine can allocate, which is not modelled). The arrays start filled with zeros, and
  the generator is made anew from the constant seed.
\<close>

definition initGrid :: "Env \<Rightarrow> Component \<Rightarrow> real \<Rightarrow> real \<Rightarrow> fault + Component" where
  "initGrid env st width height =
     (let st1 = updatePalette st;
          p = params st1;
          pitch = pixelSize p + gap p
      in if pitch = 0 then (if width \<noteq> 0 \<and> height \<noteq> 0 then Inl RangeError else Inl NonFinite)
         else
           (let c = \<lceil>width / pitch\<rceil>;
                r = \<lceil>height / pitch\<rceil>;
                numCells = c * r
            in if numCells < 0 then Inl RangeError
               else
                 (let g0 = \<lparr>cols = c, rows = r,
                            targetTypes = replicate (nat numCells) 0,
                            biases = replicate (nat numCells) 0,
                            activations = replicate (nat numCells) 0\<rparr>;
                      rng = seedrandom env ''grid-layout-fixed''
                  in Inr (st1\<lparr>gridData := Some (fst (initLoop rng p numCells 0 (g0, 0)))\<rparr>))))"

text \<open>
  The predecessors of cell \<open>i\<close> in the words of the specification: the cell directly
  left, and the up-left, up and up-right cells of the previous row, those that lie inside
  the grid.
\<close>

definition halfNeighborhood :: "int \<Rightarrow> int \<Rightarrow> nat \<Rightarrow> nat list" where
  "halfNeighborhood c r i =
     (let x = int i mod c; y = int i div c
      in map (\<lambda>(nx, ny). nat (ny * c + nx))
           (filter (\<lambda>(nx, ny). 0 \<le> nx \<and> nx < c \<and> 0 \<le> ny \<and> ny < r)
              [(x - 1, y), (x - 1, y - 1), (x, y - 1), (x + 1, y - 1)]))"

section \<open>Rendering a frame\<close>

text \<open>
  \<^verbatim>\<open>Math.max(0, Math.min(1, a / b))\<close>: the quotient clamped to \<open>[0, 1]\<close>. A division of a
  non-zero number by zero is infinite and clamps to 1 or 0 (the zero divisors of the
  source are positive zeros); zero divided by zero is \<^verbatim>\<open>NaN\<close>, which both \<^verbatim>\<open>Math.min\<close>
  and \<^verbatim>\<open>Math.max\<close> return as it is.
\<close>

definition clampDiv :: "real \<Rightarrow> real \<Rightarrow> real option" where
  "clampDiv a b =
     (if b = 0 then (if 0 < a then Some 1 else if a < 0 then Some 0 else None)
      else Some (max 0 (min 1 (a / b))))"

text \<open>Lines 196 to 205: the vertical mask value of row \<open>y\<close> of \<open>r\<close> rows.\<close>

definition rowMask :: "Params \<Rightarrow> int \<Rightarrow> nat \<Rightarrow> real option" where
  "rowMask p r y =
     (let ny = real y / real_of_int r;
          threshold = 1 - maskHeight p
      in clampDiv (ny - threshold) (maskFeatherY p))"

definition smoothstep :: "real \<Rightarrow> real" where
  "smoothstep m = m * m * (3 - 2 * m)"

text \<open>
  Lines 220 to 225 for the macro wave and 234 to 238 for the micro gate: the same
  computation on a noise value, a threshold and a feather.
\<close>

definition smoothMask :: "real \<Rightarrow> real \<Rightarrow> real \<Rightarrow> real option" where
  "smoothMask v threshold feather =
     (let start = threshold - feather;
          fin = threshold + feather
      in map_option smoothstep (clampDiv (v - start) (fin - start)))"

text \<open>
  \<^verbatim>\<open>Math.pow(x, g)\<close> on a base that is not negative (the base is a clamped value): 1 for the
  exponent 0, and infinite for the base 0 with a negative exponent.
\<close>

definition jsPow :: "real \<Rightarrow> real \<Rightarrow> real option" where
  "jsPow x g =
     (if g = 0 then Some 1
      else if x = 0 then (if 0 < g then Some 0 else None)
      else Some (x powr g))"

text \<open>Lines 213 to 251: the target activation of the cell at \<open>(x, y)\<close> at time \<open>t\<close>.\<close>

definition cellTarget :: "Env \<Rightarrow> Params \<Rightarrow> real \<Rightarrow> nat \<Rightarrow> nat \<Rightarrow> real \<Rightarrow> real option" where
  "cellTarget env p t x y bias =
     (let macroX = (real x + t * macroVx p) * macroScale p;
          macroY = (real y + t * macroVy p) * macroScale p;
          macroVal = (macroNoise env macroX macroY (t * macroTimeScale p) + 1) * (1 / 2)
      in case smoothMask macroVal (macroThreshold p) (macroFeather p) of
           None \<Rightarrow> None
         | Some macroMask \<Rightarrow>
             (let microX = (real x + t * macroVx p) * microScale p;
                  microY = (real y + t * macroVy p) * microScale p;
                  microVal = (microNoise env microX microY (t * microTimeScale p) + 1) * (1 / 2)
              in case smoothMask microVal (microThreshold p) (microFeather p) of
                   None \<Rightarrow> None
                 | Some microMask \<Rightarrow>
                     (let signal = macroMask * microMask + bias * biasStrength p;
                          target = max 0 (min 1 signal)
                      in if mixGamma p \<noteq> 1 then jsPow target (mixGamma p) else Some target)))"

text \<open>Line 255: one step of the exponential moving average.\<close>

definition smoothActivation :: "real \<Rightarrow> real \<Rightarrow> real \<Rightarrow> real" where
  "smoothActivation a target s = a + (target - a) * s"

subsection \<open>The store of an activation\<close>

text \<open>
  \<open>activations\<close> is a \<^verbatim>\<open>Float32Array\<close> (line 126): the assignment of line 256 rounds the
  number to the nearest one of the binary32 format, a tie to the even significand, and
  the next frame reads the rounded number back (line 255).

  The binade of a number \<open>a\<close> that is not negative is the exponent \<open>e\<close> with
  \<open>2 ^ e \<le> a < 2 ^ (e + 1)\<close>, found by counting from 0, and held at \<open>emax\<close> above and at \<open>- emin\<close>
  below, where the subnormal numbers are.
\<close>

primrec searchUp :: "nat \<Rightarrow> real \<Rightarrow> int \<Rightarrow> int" where
  "searchUp 0 a e = e"
| "searchUp (Suc n) a e = (if a < 2 powi (e + 1) then e else searchUp n a (e + 1))"

primrec searchDown :: "nat \<Rightarrow> real \<Rightarrow> int \<Rightarrow> int" where
  "searchDown 0 a e = e"
| "searchDown (Suc n) a e = (if 2 powi e \<le> a then e else searchDown n a (e - 1))"

definition binade :: "nat \<Rightarrow> nat \<Rightarrow> real \<Rightarrow> int" where
  "binade emax emin a = (if 1 \<le> a then searchUp emax a 0 else searchDown emin a 0)"

text \<open>The nearest integer, a tie to the even one.\<close>

definition roundTiesEven :: "real \<Rightarrow> int" where
  "roundTiesEven q =
     (let n = \<lfloor>q\<rfloor>; f = q - of_int n
      in if f < 1 / 2 then n else if 1 / 2 < f then n + 1 else if even n then n else n + 1)"

text \<open>
  A binary format with \<open>m\<close> stored significand bits and the exponents from \<open>- emin\<close> to
  \<open>emax\<close>: around \<open>x\<close> its numbers are the multiples of \<open>u = 2 ^ (e - m)\<close>, for the binade \<open>e\<close>
  of \<open>\<bar>x\<bar>\<close>, and \<open>x\<close> is rounded to the nearest of them. \<open>None\<close> is the overflow to
  \<^verbatim>\<open>Infinity\<close>, when the result would be 2 to the power \<open>emax + 1\<close>.
\<close>

definition roundBinary :: "nat \<Rightarrow> nat \<Rightarrow> nat \<Rightarrow> real \<Rightarrow> real option" where
  "roundBinary m emax emin x =
     (let a = \<bar>x\<bar>;
          e = binade emax emin a;
          u = 2 powi (e - int m);
          k = roundTiesEven (a / u)
      in if e = int emax \<and> 2 ^ (m + 1) \<le> k then None else Some (sgn x * (of_int k * u)))"

text \<open>The format of a \<^verbatim>\<open>Float32Array\<close> element, and that of a JavaScript number.\<close>

definition float32 :: "real \<Rightarrow> real option" where
  "float32 = roundBinary 23 127 126"

definition float64 :: "real \<Rightarrow> real option" where
  "float64 = roundBinary 52 1023 1022"

text \<open>
  The activation that is stored for a cell after \<open>n\<close> frames that all have the target
  \<open>T\<close>, from the value 0 the build gives it: each frame reads the stored number,
  computes line 255 (taken exactly) and stores the result, rounded.
\<close>

primrec activationAfter :: "real \<Rightarrow> real \<Rightarrow> nat \<Rightarrow> real option" where
  "activationAfter s T 0 = Some 0"
| "activationAfter s T (Suc n) =
     (case activationAfter s T n of
        None \<Rightarrow> None
      | Some a \<Rightarrow> float32 (smoothActivation a T s))"

text \<open>
  The sequence as the specification writes it, \<open>a\<^sub>0 = 0\<close> and
  \<open>a\<^sub>n\<^sub>+\<^sub>1 = a\<^sub>n + (T - a\<^sub>n) * s\<close> over the reals, with no store in between.
\<close>

primrec idealActivation :: "real \<Rightarrow> real \<Rightarrow> nat \<Rightarrow> real" where
  "idealActivation s T 0 = 0"
| "idealActivation s T (Suc n) = smoothActivation (idealActivation s T n) T s"

text \<open>
  Line 225 (and 238) in the arithmetic of JavaScript numbers, where each operation rounds
  to binary64: \<^verbatim>\<open>m * m * (3 - 2 * m)\<close> is \<^verbatim>\<open>(m * m) * (3 - (2 * m))\<close>.
\<close>

definition smoothstep64 :: "real \<Rightarrow> real option" where
  "smoothstep64 b =
     (case float64 (b * b) of
        None \<Rightarrow> None
      | Some sq \<Rightarrow>
          (case float64 (2 * b) of
             None \<Rightarrow> None
           | Some d \<Rightarrow>
               (case float64 (3 - d) of
                  None \<Rightarrow> None
                | Some c \<Rightarrow> float64 (sq * c))))"

subsection \<open>Colours of a cell\<close>

text \<open>
  A fill style: a colour string of the parameters as it is, or the string
  \<^verbatim>\<open>rgb(r, g, b)\<close> made from three numbers.
\<close>

datatype Style = CssString string | CssRgb int int int

text \<open>\<^verbatim>\<open>Math.round\<close> rounds to the nearest integer, a half upwards.\<close>

definition jsRound :: "real \<Rightarrow> int" where
  "jsRound v = \<lfloor>v + 1 / 2\<rfloor>"

definition lerpChannel :: "int \<Rightarrow> int \<Rightarrow> real \<Rightarrow> int" where
  "lerpChannel a b t = jsRound (real_of_int a + (real_of_int b - real_of_int a) * t)"

definition lerpColor :: "RGB \<Rightarrow> RGB \<Rightarrow> real \<Rightarrow> Style" where
  "lerpColor c1 c2 t =
     CssRgb (lerpChannel (rgb_r c1) (rgb_r c2) t)
            (lerpChannel (rgb_g c1) (rgb_g c2) t)
            (lerpChannel (rgb_b c1) (rgb_b c2) t)"

text \<open>Line 279.\<close>

definition accentMix :: "Params \<Rightarrow> real \<Rightarrow> real" where
  "accentMix p current = min 1 (current * accentMixStrength p)"

text \<open>
  Lines 271 to 285: the colour of a cell of type \<open>ty\<close> (\<open>None\<close> is \<^verbatim>\<open>undefined\<close>, which is
  neither \<^verbatim>\<open>=== 0\<close> nor \<^verbatim>\<open>=== 1\<close>) with the activation \<open>current\<close>.
\<close>

definition cellColor :: "Params \<Rightarrow> Palette \<Rightarrow> nat option \<Rightarrow> real \<Rightarrow> Style" where
  "cellColor p pal ty current =
     (if ty = Some 0 then CssString (baseGrayStr p)
      else
        (let accent = (if ty = Some 1 then yellow pal else pink pal);
             mix = accentMix p current
         in if mix < 1 / 100 then CssString (baseGrayStr p)
            else if mix > 99 / 100 then
              CssString (if ty = Some 1 then accentYellowStr p else accentPinkStr p)
            else lerpColor (gray pal) accent mix))"

text \<open>
  One \<^verbatim>\<open>fillRect\<close> of a cell, with the fill style and the \<^verbatim>\<open>globalAlpha\<close> set before it
  (\<open>None\<close> in the debug view, which sets no alpha).
\<close>

record Fill =
  fillX :: real
  fillY :: real
  fillSize :: real
  fillStyle :: Style
  globalAlpha :: "real option"

text \<open>
  The body of the loop over the columns (lines 211 to 296) for the cell \<open>(x, y)\<close> of a
  grid of \<open>c\<close> columns, with the mask value \<open>m\<close> of the row. The activation is stored
  before anything is painted. A \<^verbatim>\<open>NaN\<close> in the target, in the stored activation or in the
  mask value ends the model.
\<close>

definition drawCell ::
  "Env \<Rightarrow> Params \<Rightarrow> Palette \<Rightarrow> real \<Rightarrow> real option \<Rightarrow> int \<Rightarrow> nat \<Rightarrow> nat \<Rightarrow> GridData
     \<Rightarrow> fault + (GridData \<times> Fill)" where
  "drawCell env p pal t m c y x g =
     (let pitch = pixelSize p + gap p;
          i = nat (int y * c + int x)
      in case (readAt (biases g) i, readAt (activations g) i) of
           (Some bias, Some a) \<Rightarrow>
             (case cellTarget env p t x y bias of
                None \<Rightarrow> Inl NonFinite
              | Some target \<Rightarrow>
                  (let current = smoothActivation a target (smoothing p);
                       g' = g\<lparr>activations := (activations g)[i := current]\<rparr>
                   in case m of
                        None \<Rightarrow> Inl NonFinite
                      | Some maskVal \<Rightarrow>
                          if debugView p then
                            (let v = \<lfloor>current * 255 * maskVal\<rfloor>
                             in Inr (g', \<lparr>fillX = real x * pitch, fillY = real y * pitch,
                                          fillSize = pixelSize p, fillStyle = CssRgb v v v,
                                          globalAlpha = None\<rparr>))
                          else
                            Inr (g', \<lparr>fillX = real x * pitch, fillY = real y * pitch,
                                      fillSize = pixelSize p,
                                      fillStyle = cellColor p pal (readAt (targetTypes g) i) current,
                                      globalAlpha =
                                        Some ((baseAlpha p + current * activeAlphaBoost p) * maskVal)\<rparr>)))
         | _ \<Rightarrow> Inl NonFinite)"

function colLoop ::
  "Env \<Rightarrow> Params \<Rightarrow> Palette \<Rightarrow> real \<Rightarrow> real option \<Rightarrow> int \<Rightarrow> nat \<Rightarrow> nat \<Rightarrow> GridData \<times> Fill list
     \<Rightarrow> fault + (GridData \<times> Fill list)" where
  "colLoop env p pal t m c y x s =
     (if int x < c then
        (case drawCell env p pal t m c y x (fst s) of
           Inl e \<Rightarrow> Inl e
         | Inr (g', f) \<Rightarrow> colLoop env p pal t m c y (x + 1) (g', snd s @ [f]))
      else Inr s)"
  by pat_completeness auto
termination
  by (relation "measure (\<lambda>(env, p, pal, t, m, c, y, x, s). nat (c - int x))") auto

declare colLoop.simps [simp del]

text \<open>
  The loop over the rows (lines 193 to 298). A row whose mask value is \<open>\<le> 0\<close> is skipped
  (\<^verbatim>\<open>NaN <= 0\<close> is false).
\<close>

function rowLoop ::
  "Env \<Rightarrow> Params \<Rightarrow> Palette \<Rightarrow> real \<Rightarrow> int \<Rightarrow> int \<Rightarrow> nat \<Rightarrow> GridData \<times> Fill list
     \<Rightarrow> fault + (GridData \<times> Fill list)" where
  "rowLoop env p pal t c r y s =
     (if int y < r then
        (let m = rowMask p r y
         in if (case m of Some maskVal \<Rightarrow> maskVal \<le> 0 | None \<Rightarrow> False) then
              rowLoop env p pal t c r (y + 1) s
            else
              (case colLoop env p pal t m c y 0 s of
                 Inl e \<Rightarrow> Inl e
               | Inr s' \<Rightarrow> rowLoop env p pal t c r (y + 1) s'))
      else Inr s)"
  by pat_completeness auto
termination
  by (relation "measure (\<lambda>(env, p, pal, t, c, r, y, s). nat (r - int y))") auto

declare rowLoop.simps [simp del]

text \<open>
  \<^verbatim>\<open>draw\<close> (lines 175 to 299): the component after the frame and the cells painted, in
  order. Without a canvas, a context or a grid the function returns at once. The
  clearing of the canvas to the background colour is not part of the result.
\<close>

definition draw :: "Env \<Rightarrow> Component \<Rightarrow> real \<Rightarrow> fault + (Component \<times> Fill list)" where
  "draw env st time =
     (if \<not> canvasReady env then Inr (st, [])
      else
        (case gridData st of
           None \<Rightarrow> Inr (st, [])
         | Some g \<Rightarrow>
             (let p = params st;
                  pal = palette st;
                  t = (if prefersReducedMotion env then 0 else time * (1 / 1000))
              in case rowLoop env p pal t (cols g) (rows g) 0 (g, []) of
                   Inl e \<Rightarrow> Inl e
                 | Inr (g', out) \<Rightarrow> Inr (st\<lparr>gridData := Some g'\<rparr>, out))))"

text \<open>A channel value between two channel values, the ends included.\<close>

definition betweenChannels :: "int \<Rightarrow> int \<Rightarrow> int \<Rightarrow> bool" where
  "betweenChannels a b v = (min a b \<le> v \<and> v \<le> max a b)"

section \<open>Properties of the colour parser\<close>

lemma twoHex_Some:
  "twoHex s = Some (g, rest) \<Longrightarrow> \<exists>a b. s = a # b # rest \<and> g = [a, b] \<and> isHexDigit a \<and> isHexDigit b"
  by (cases s rule: twoHex.cases) (auto split: if_splits)

lemma threeGroups_Some_sixHex:
  "threeGroups s = Some m \<Longrightarrow> sixHexDigits s"
  by (auto simp: threeGroups_def sixHexDigits_def split: option.splits prod.splits if_splits
           dest!: twoHex_Some)

lemma hexExec_Some_syntax:
  "hexExec hex = Some m \<Longrightarrow> hexColorSyntax hex"
  by (auto simp: hexExec_def hexColorSyntax_def split: list.splits option.splits if_splits
           dest: threeGroups_Some_sixHex)

text \<open>
  Claim C10. \<open>hexToRgb\<close> returns the black triple for every string that is not an optional
  \<^verbatim>\<open>#\<close> followed by exactly six hexadecimal digits. The function is total: no input makes
  it raise.
\<close>

theorem hexToRgb_malformed_black:
  "\<not> hexColorSyntax hex \<Longrightarrow> hexToRgb hex = \<lparr>rgb_r = 0, rgb_g = 0, rgb_b = 0\<rparr>"
  by (cases "hexExec hex") (auto simp: hexToRgb_def dest: hexExec_Some_syntax)

theorem hexToRgb_malformed_black_witness:
  "\<not> hexColorSyntax ''#12345'' \<and> hexToRgb ''#12345'' = \<lparr>rgb_r = 0, rgb_g = 0, rgb_b = 0\<rparr>"
  using hexToRgb_malformed_black [of "''#12345''"]
  by (simp add: hexColorSyntax_def sixHexDigits_def isHexDigit_def)

section \<open>Properties of the temporal smoother\<close>

subsection \<open>The recurrence over the reals\<close>

text \<open>
  With no rounding the sequence of the specification has the closed form
  \<open>T * (1 - (1 - s) ^ n)\<close>: it never decreases, stays below \<open>T\<close> and converges to \<open>T\<close>.
\<close>

lemma idealActivation_closed:
  "idealActivation s T n = T * (1 - (1 - s) ^ n)"
proof (induction n)
  case 0
  show ?case by simp
next
  case (Suc n)
  show ?case
    unfolding idealActivation.simps Suc.IH smoothActivation_def
    by (simp add: algebra_simps)
qed

lemma idealActivation_mono:
  assumes "0 < s" "s \<le> 1" "0 \<le> T"
  shows "idealActivation s T n \<le> idealActivation s T (Suc n)"
proof -
  have "0 \<le> (1 - s) ^ n" using assms by simp
  then have "0 \<le> T * s * (1 - s) ^ n" using assms by simp
  moreover have "idealActivation s T (Suc n) - idealActivation s T n = T * s * (1 - s) ^ n"
    by (simp add: idealActivation_closed algebra_simps)
  ultimately show ?thesis by linarith
qed

lemma idealActivation_le_target:
  assumes "0 < s" "s \<le> 1" "0 \<le> T"
  shows "idealActivation s T n \<le> T"
proof -
  have "0 \<le> (1 - s) ^ n" using assms by simp
  then have "T * (1 - (1 - s) ^ n) \<le> T * 1"
    using assms by (intro mult_left_mono) auto
  then show ?thesis by (simp add: idealActivation_closed)
qed

lemma idealActivation_tendsto:
  assumes "0 < s" "s \<le> 1"
  shows "(\<lambda>n. idealActivation s T n) \<longlonglongrightarrow> T"
proof -
  have "\<bar>1 - s\<bar> < 1" using assms by simp
  then have "(\<lambda>n. (1 - s) ^ n) \<longlonglongrightarrow> 0"
    by (intro LIMSEQ_power_zero) simp
  then have "(\<lambda>n. T * (1 - (1 - s) ^ n)) \<longlonglongrightarrow> T * (1 - 0)"
    by (intro tendsto_mult tendsto_diff tendsto_const)
  then show ?thesis by (simp add: idealActivation_closed)
qed

subsection \<open>Rounding to a binary format\<close>

lemma two_powi_pos: "0 < (2::real) powi e"
  by simp

lemma two_powi_Suc: "(2::real) powi (e + 1) = 2 * 2 powi e"
  by (simp add: power_int_add)

lemma two_powi_mono: "a \<le> b \<Longrightarrow> (2::real) powi a \<le> 2 powi b"
  by (rule power_int_increasing) simp_all

lemma two_powi_less_imp: "(2::real) powi a < 2 powi b \<Longrightarrow> a < b"
  using two_powi_mono [of b a] by (cases "a < b") auto

text \<open>The two searches find the binade, unless they run out of steps.\<close>

lemma searchUp_spec:
  "2 powi e \<le> a \<Longrightarrow>
     e \<le> searchUp n a e \<and> searchUp n a e \<le> e + int n \<and> 2 powi (searchUp n a e) \<le> a
     \<and> (a < 2 powi (searchUp n a e + 1) \<or> searchUp n a e = e + int n)"
proof (induction n arbitrary: e)
  case 0
  then show ?case by simp
next
  case (Suc n)
  show ?case
  proof (cases "a < 2 powi (e + 1)")
    case True
    with Suc.prems show ?thesis by simp
  next
    case False
    then have "2 powi (e + 1) \<le> a" by simp
    from Suc.IH [OF this] False show ?thesis by auto
  qed
qed

lemma searchDown_spec:
  "a < 2 powi (e + 1) \<Longrightarrow>
     e - int n \<le> searchDown n a e \<and> searchDown n a e \<le> e \<and> a < 2 powi (searchDown n a e + 1)
     \<and> (2 powi (searchDown n a e) \<le> a \<or> searchDown n a e = e - int n)"
proof (induction n arbitrary: e)
  case 0
  then show ?case by simp
next
  case (Suc n)
  show ?case
  proof (cases "2 powi e \<le> a")
    case True
    with Suc.prems show ?thesis by simp
  next
    case False
    then have "a < 2 powi (e - 1 + 1)" by simp
    from Suc.IH [OF this] False show ?thesis by auto
  qed
qed

lemma binade_spec:
  "- int emin \<le> binade emax emin a \<and> binade emax emin a \<le> int emax
   \<and> (2 powi (binade emax emin a) \<le> a \<or> binade emax emin a = - int emin)
   \<and> (a < 2 powi (binade emax emin a + 1) \<or> binade emax emin a = int emax)"
proof (cases "1 \<le> a")
  case True
  then have "(2::real) powi 0 \<le> a" by simp
  from searchUp_spec [OF this, of emax] True show ?thesis
    by (auto simp: binade_def)
next
  case False
  then have "a < 2 powi (0 + 1)" by simp
  from searchDown_spec [OF this, of emin] False show ?thesis
    by (auto simp: binade_def)
qed

lemma binade_unique:
  assumes "- int emin \<le> e" "e \<le> int emax"
    and "2 powi e \<le> a \<or> e = - int emin"
    and "a < 2 powi (e + 1) \<or> e = int emax"
  shows "binade emax emin a = e"
proof -
  let ?b = "binade emax emin a"
  note b = binade_spec [of emin emax a]
  have "\<not> ?b < e"
  proof
    assume l: "?b < e"
    with b assms have "a < 2 powi (?b + 1)" "2 powi e \<le> a" by auto
    moreover have "(2::real) powi (?b + 1) \<le> 2 powi e" using l by (intro two_powi_mono) simp
    ultimately show False by simp
  qed
  moreover have "\<not> e < ?b"
  proof
    assume l: "e < ?b"
    with b assms have "2 powi ?b \<le> a" "a < 2 powi (e + 1)" by auto
    moreover have "(2::real) powi (e + 1) \<le> 2 powi ?b" using l by (intro two_powi_mono) simp
    ultimately show False by simp
  qed
  ultimately show ?thesis by simp
qed

























text \<open>Less than half the least positive number is rounded to 0.\<close>

lemma roundTiesEven_small: "0 \<le> q \<Longrightarrow> q < 1 / 2 \<Longrightarrow> roundTiesEven q = 0"
proof -
  assume q: "0 \<le> q" "q < 1 / 2"
  then have "\<lfloor>q\<rfloor> = 0" by (intro floor_unique) simp_all
  with q show ?thesis by (simp add: roundTiesEven_def Let_def)
qed

lemma roundBinary_underflow:
  assumes "0 \<le> x" "x < 2 powi (- int emin - int m - 1)"
  shows "roundBinary m emax emin x = Some 0"
proof -
  define d :: real where "d = 2 powi (- int emin - int m - 1)"
  have d: "0 < d" by (simp add: d_def)
  have "(2::real) powi (- int emin - int m - 1 + 1) = 2 * d"
    unfolding d_def by (rule two_powi_Suc)
  then have u: "(2::real) powi (- int emin - int m) = 2 * d" by simp
  have "d \<le> 2 powi (- int emin + 1)" unfolding d_def by (rule two_powi_mono) simp
  with assms(2) have "x < 2 powi (- int emin + 1)" unfolding d_def by linarith
  then have b: "binade emax emin x = - int emin" by (intro binade_unique) simp_all
  have "x / (2 * d) < 1 / 2" using assms(2) d unfolding d_def [symmetric] by (simp add: field_simps)
  moreover have "0 \<le> x / (2 * d)" using assms(1) d by simp
  ultimately have k: "roundTiesEven (x / 2 powi (- int emin - int m)) = 0"
    unfolding u by (rule roundTiesEven_small [rotated])
  have ax: "\<bar>x\<bar> = x" using assms(1) by simp
  show ?thesis unfolding roundBinary_def Let_def ax b k by simp
qed

lemma float32_underflow:
  assumes "0 \<le> x" "x < 2 powi (- 150)"
  shows "float32 x = Some 0"
  unfolding float32_def using assms by (intro roundBinary_underflow) simp_all





subsection \<open>The stored activations\<close>










text \<open>
  The stored activation can also stop below the target. With the smoothing 0.15 of the
  source and the target 1, a stored \<open>1 - 3 / 2 ^ 24\<close> (0.99999982...) is stored again: the
  step of line 255 is less than half the distance to the next binary32 number.
\<close>

lemma stall_below_one:
  "float32 (smoothActivation (16777213 / 16777216) 1 (15 / 100)) = Some (16777213 / 16777216)"
  by code_simp

text \<open>
  And with the target \<open>2 powi (- 149)\<close>, the least positive binary32 number, and \<open>s = 1 / 4\<close>,
  the stored activation is 0 in every frame.
\<close>

lemma stored_sequence_stalls:
  "activationAfter (1 / 4) (2 powi (- 149)) n = Some 0"
proof (induction n)
  case 0
  show ?case by simp
next
  case (Suc n)
  have "(2::real) powi (- 150 + 1) = 2 * 2 powi (- 150)" by (rule two_powi_Suc)
  then have u: "(2::real) powi (- 149) = 2 * 2 powi (- 150)" by simp
  have "float32 (smoothActivation 0 (2 powi (- 149)) (1 / 4)) = Some 0"
    by (rule float32_underflow) (simp_all add: smoothActivation_def u)
  with Suc show ?case by simp
qed


section \<open>Properties of the smoothstep mask\<close>

lemma smoothstep_bounds: "0 \<le> b \<Longrightarrow> b \<le> 1 \<Longrightarrow> 0 \<le> smoothstep b \<and> smoothstep b \<le> 1"
proof -
  assume b: "0 \<le> b" "b \<le> 1"
  have "1 - smoothstep b = (1 - b) * (1 - b) * (1 + 2 * b)"
    by (simp add: smoothstep_def algebra_simps)
  moreover have "0 \<le> (1 - b) * (1 - b) * (1 + 2 * b)" using b by simp
  moreover have "0 \<le> b * b * (3 - 2 * b)" using b by simp
  ultimately show ?thesis by (simp add: smoothstep_def)
qed

lemma smoothstep_mono:
  assumes "0 \<le> a" "a \<le> b" "b \<le> 1"
  shows "smoothstep a \<le> smoothstep b"
proof -
  have eq: "smoothstep b - smoothstep a = (b - a) * (3 * (a + b) - 2 * (a * a + a * b + b * b))"
    by (simp add: smoothstep_def algebra_simps)
  have "a * a \<le> a * 1" "b * b \<le> b * 1" "a * b \<le> a * 1"
    using assms by (intro mult_left_mono; linarith)+
  moreover have "a * b \<le> 1 * b"
    using assms by (intro mult_right_mono; linarith)
  ultimately have "0 \<le> 3 * (a + b) - 2 * (a * a + a * b + b * b)" by simp
  then have "0 \<le> (b - a) * (3 * (a + b) - 2 * (a * a + a * b + b * b))"
    using assms by simp
  with eq show ?thesis by linarith
qed

lemma clamp_mono: "(u::real) \<le> v \<Longrightarrow> max 0 (min 1 u) \<le> max 0 (min 1 v)"
  by auto

text \<open>
  Claim C7, as the code has it. With a feather above 0, and the arithmetic of lines 222
  to 225 taken exactly, the mask of a noise value \<open>v\<close> is the smoothstep of the band
  \<open>clamp((v - (threshold - feather)) / (2 * feather), 0, 1)\<close>; it lies in \<open>[0, 1]\<close> for
  every real \<open>v\<close>, and it does not decrease when \<open>v\<close> grows.
\<close>

theorem smoothMask_monotone_bounded:
  assumes "0 < feather"
  shows "\<exists>m m'. smoothMask v threshold feather = Some m
           \<and> m = smoothstep (max 0 (min 1 ((v - (threshold - feather)) / (2 * feather))))
           \<and> 0 \<le> m \<and> m \<le> 1
           \<and> smoothMask v' threshold feather = Some m'
           \<and> (v \<le> v' \<longrightarrow> m \<le> m')"
proof -
  let ?band = "\<lambda>u. max 0 (min 1 ((u - (threshold - feather)) / (2 * feather)))"
  have den: "threshold + feather - (threshold - feather) = 2 * feather" by simp
  have sm: "smoothMask u threshold feather = Some (smoothstep (?band u))" for u
    using assms by (simp add: smoothMask_def clampDiv_def den)
  have rng: "0 \<le> ?band u \<and> ?band u \<le> 1" for u by auto
  have mono: "?band v \<le> ?band v'" if "v \<le> v'"
  proof -
    have "(v - (threshold - feather)) / (2 * feather) \<le> (v' - (threshold - feather)) / (2 * feather)"
      using that assms by (simp add: divide_right_mono)
    then show ?thesis by (rule clamp_mono)
  qed
  show ?thesis
    using sm rng smoothstep_bounds [of "?band v"] smoothstep_mono [of "?band v" "?band v'"] mono
    by auto
qed

theorem smoothMask_monotone_bounded_witness:
  "smoothMask (- 1000) (35 / 100) (15 / 100) = Some 0
   \<and> smoothMask (35 / 100) (35 / 100) (15 / 100) = Some (1 / 2)
   \<and> smoothMask 1000 (35 / 100) (15 / 100) = Some 1"
proof -
  have "(0::real) < 15 / 100" by simp
  from smoothMask_monotone_bounded [OF this, of "35 / 100" "35 / 100" "1000"]
  show ?thesis by (simp add: smoothMask_def clampDiv_def smoothstep_def)
qed


text \<open>
  The feather of the macro wave can be set to 0 (line 348). The mask of a noise value that
  equals the threshold, 0.35 in the source, is then zero divided by zero: \<^verbatim>\<open>NaN\<close>, which
  is no value of \<open>[0, 1]\<close>.
\<close>

theorem smoothMask_zero_feather_counterexample:
  "smoothMask (35 / 100) (35 / 100) 0 = None"
  by (simp add: smoothMask_def clampDiv_def)

text \<open>With a feather of 0 the mask is a step around that value.\<close>

lemma smoothMask_zero_feather:
  "smoothMask v threshold 0 =
     (if threshold < v then Some 1 else if v < threshold then Some 0 else None)"
  by (simp add: smoothMask_def clampDiv_def smoothstep_def)

text \<open>
  In the arithmetic of JavaScript numbers the polynomial of line 225 is not monotone to
  the last place: between two adjacent binary64 numbers near 0.9525 the rounded result
  drops by one unit of its last place, \<open>2 powi (- 53)\<close>.
\<close>

lemma smoothstep64_dips:
  "float64 (536191471860941 / 562949953421312) = Some (536191471860941 / 562949953421312)
   \<and> float64 (8579063549775057 / 9007199254740992) = Some (8579063549775057 / 9007199254740992)
   \<and> (536191471860941 / 562949953421312 :: real) < 8579063549775057 / 9007199254740992
   \<and> smoothstep64 (536191471860941 / 562949953421312)
        = Some (8948082646149291 / 9007199254740992)
   \<and> smoothstep64 (8579063549775057 / 9007199254740992)
        = Some (8948082646149290 / 9007199254740992)"
  by code_simp

section \<open>Properties of the vertical mask\<close>

lemma rowMask_formula:
  "maskFeatherY p \<noteq> 0 \<Longrightarrow>
   rowMask p r y = Some (max 0 (min 1 ((real y / real_of_int r - (1 - maskHeight p)) / maskFeatherY p)))"
  by (simp add: rowMask_def clampDiv_def)

text \<open>
  Claim C1, as the code has it. With \<open>maskHeight = 1\<close> and a positive feather the mask value
  of row \<open>y\<close> is \<open>clamp(ny / maskFeatherY, 0, 1)\<close> with \<open>ny = y / rows\<close>: it is 1 for the
  rows with \<open>ny \<ge> maskFeatherY\<close>, positive for every row but the first (these rows are
  not skipped), and 0 for row 0. With \<open>maskHeight = 0.3\<close> and \<open>maskFeatherY = 0.2\<close> every
  row with \<open>ny < 0.5\<close> has the mask value 0.
\<close>

theorem rowMask_vertical:
  assumes "0 < r"
  shows "(maskHeight p = 1 \<and> 0 < maskFeatherY p \<longrightarrow>
            rowMask p r y = Some (max 0 (min 1 (real y / real_of_int r / maskFeatherY p)))
          \<and> (maskFeatherY p \<le> real y / real_of_int r \<longrightarrow> rowMask p r y = Some 1)
          \<and> (0 < y \<longrightarrow> (\<exists>m. rowMask p r y = Some m \<and> 0 < m))
          \<and> rowMask p r 0 = Some 0)
       \<and> (maskHeight p = 3 / 10 \<and> maskFeatherY p = 2 / 10 \<and> real y / real_of_int r < 1 / 2 \<longrightarrow>
            rowMask p r y = Some 0)"
proof -
  have full: "rowMask p r y = Some (max 0 (min 1 (real y / real_of_int r / maskFeatherY p)))"
    if "maskHeight p = 1" "0 < maskFeatherY p" for y
    using that by (simp add: rowMask_formula)
  have one: "rowMask p r y = Some 1"
    if "maskHeight p = 1" "0 < maskFeatherY p" "maskFeatherY p \<le> real y / real_of_int r"
  proof -
    have "1 \<le> ny / f" if "f \<le> ny" "0 < f" for ny f :: real
      using that by simp
    from this [of "maskFeatherY p" "real y / real_of_int r"]
    have "1 \<le> real y / real_of_int r / maskFeatherY p"
      using that by blast
    then show ?thesis using that by (simp add: full)
  qed
  have pos: "\<exists>m. rowMask p r y = Some m \<and> 0 < m"
    if "maskHeight p = 1" "0 < maskFeatherY p" "0 < y"
  proof -
    have "0 < real y / real_of_int r / maskFeatherY p"
      using that assms by simp
    then show ?thesis using that by (simp add: full)
  qed
  have zero: "rowMask p r 0 = Some 0" if "maskHeight p = 1" "0 < maskFeatherY p"
    using that by (simp add: full)
  have below: "rowMask p r y = Some 0"
    if "maskHeight p = 3 / 10" "maskFeatherY p = 2 / 10" "real y / real_of_int r < 1 / 2"
  proof -
    have f: "maskFeatherY p \<noteq> 0" using that by simp
    have q: "(ny - (1 - 3 / 10)) / (2 / 10) \<le> 0" if "ny < 1 / 2" for ny :: real
      using that by simp
    have clamp0: "max 0 (min 1 q) = 0" if "q \<le> 0" for q :: real
      using that by simp
    have "rowMask p r y =
        Some (max 0 (min 1 ((real y / real_of_int r - (1 - 3 / 10)) / (2 / 10))))"
      using rowMask_formula [OF f, of r y] unfolding that(1) that(2) .
    also have "\<dots> = Some 0"
      using clamp0 [OF q [OF that(3)]] by (rule arg_cong)
    finally show ?thesis .
  qed
  show ?thesis using full one pos zero below by blast
qed

theorem rowMask_vertical_witness:
  "rowMask defaultParams 10 5 = Some 1
   \<and> rowMask defaultParams 10 1 = Some (1 / 2)
   \<and> rowMask (defaultParams\<lparr>maskHeight := 3 / 10\<rparr>) 10 4 = Some 0"
proof -
  have r: "(0::int) < 10" by simp
  show ?thesis
    using rowMask_vertical [OF r, of defaultParams 5] rowMask_vertical [OF r, of defaultParams 1]
      rowMask_vertical [OF r, of "defaultParams\<lparr>maskHeight := 3 / 10\<rparr>" 4]
    by (simp add: defaultParams_def)
qed

text \<open>
  With the parameters of the source (\<open>maskHeight = 1\<close>, \<open>maskFeatherY = 0.2\<close>) and ten
  rows, row 0 has the mask value 0 and row 1 the mask value 1/2: not 1 for every row.
\<close>

theorem rowMask_full_height_counterexample:
  "rowMask defaultParams 10 0 = Some 0 \<and> rowMask defaultParams 10 1 = Some (1 / 2)"
  by (simp add: rowMask_def clampDiv_def defaultParams_def)

section \<open>Properties of the colour resolver\<close>

lemma lerpChannel_between:
  assumes "0 \<le> t" "t \<le> 1"
  shows "betweenChannels a b (lerpChannel a b t)"
proof (cases "a \<le> b")
  case True
  let ?v = "real_of_int a + (real_of_int b - real_of_int a) * t"
  have "0 \<le> (real_of_int b - real_of_int a) * t" using True assms by simp
  moreover have "(real_of_int b - real_of_int a) * t \<le> (real_of_int b - real_of_int a) * 1"
    using True assms by (intro mult_left_mono) auto
  ultimately have "real_of_int a \<le> ?v" "?v \<le> real_of_int b" by simp_all
  then have "a \<le> \<lfloor>?v + 1 / 2\<rfloor>" "\<lfloor>?v + 1 / 2\<rfloor> \<le> b"
    by (simp_all add: le_floor_iff floor_le_iff)
  with True show ?thesis by (simp add: betweenChannels_def lerpChannel_def jsRound_def)
next
  case False
  let ?v = "real_of_int a + (real_of_int b - real_of_int a) * t"
  have "(real_of_int a - real_of_int b) * t \<le> (real_of_int a - real_of_int b) * 1"
    using False assms by (intro mult_left_mono) auto
  moreover have "0 \<le> (real_of_int a - real_of_int b) * t" using False assms by simp
  ultimately have "real_of_int b \<le> ?v" "?v \<le> real_of_int a" by (simp_all add: algebra_simps)
  then have "b \<le> \<lfloor>?v + 1 / 2\<rfloor>" "\<lfloor>?v + 1 / 2\<rfloor> \<le> a"
    by (simp_all add: le_floor_iff floor_le_iff)
  with False show ?thesis by (simp add: betweenChannels_def lerpChannel_def jsRound_def)
qed

lemma defaultPalette:
  "palette (updatePalette initialComponent) =
     \<lparr>bg = \<lparr>rgb_r = 246, rgb_g = 242, rgb_b = 239\<rparr>,
      gray = \<lparr>rgb_r = 217, rgb_g = 215, rgb_b = 210\<rparr>,
      yellow = \<lparr>rgb_r = 245, rgb_g = 247, rgb_b = 217\<rparr>,
      pink = \<lparr>rgb_r = 255, rgb_g = 234, rgb_b = 234\<rparr>\<rparr>"
  by (simp add: updatePalette_def initialComponent_def defaultParams_def hexToRgb_def hexExec_def
      threeGroups_def isHexDigit_def parseInt16_def hexDigitValue_def)

text \<open>
  Claim C6, as the code has it. For a cell that is not of the base type,
  \<open>mix = min(1, activation * accentMixStrength)\<close>, which is the clamp to \<open>[0, 1]\<close> when the
  product is not negative. A mix below 0.01 (so a mix of 0) gives the base colour string, a
  mix above 0.99 (so a product of 1 or more) gives the accent colour string of the cell,
  and every mix in between gives \<^verbatim>\<open>rgb(r, g, b)\<close> where each channel, after rounding,
  lies between the base and the accent channel, the ends included.
\<close>

theorem cellColor_resolver:
  assumes "ty \<noteq> Some 0"
  shows "(current * accentMixStrength p \<ge> 0 \<longrightarrow>
            accentMix p current = max 0 (min 1 (current * accentMixStrength p)))
       \<and> (accentMix p current < 1 / 100 \<longrightarrow> cellColor p pal ty current = CssString (baseGrayStr p))
       \<and> (accentMix p current > 99 / 100 \<longrightarrow>
            cellColor p pal ty current =
              CssString (if ty = Some 1 then accentYellowStr p else accentPinkStr p))
       \<and> (1 \<le> current * accentMixStrength p \<longrightarrow> accentMix p current = 1)
       \<and> (1 / 100 \<le> accentMix p current \<and> accentMix p current \<le> 99 / 100 \<longrightarrow>
            (\<exists>r g b. cellColor p pal ty current = CssRgb r g b
               \<and> betweenChannels (rgb_r (gray pal)) (rgb_r (if ty = Some 1 then yellow pal else pink pal)) r
               \<and> betweenChannels (rgb_g (gray pal)) (rgb_g (if ty = Some 1 then yellow pal else pink pal)) g
               \<and> betweenChannels (rgb_b (gray pal)) (rgb_b (if ty = Some 1 then yellow pal else pink pal)) b))"
proof -
  have mid: "betweenChannels a b (lerpChannel a b (accentMix p current))"
    if "1 / 100 \<le> accentMix p current" "accentMix p current \<le> 99 / 100" for a b
    using that by (intro lerpChannel_between) auto
  show ?thesis
    using assms mid by (auto simp: cellColor_def lerpColor_def Let_def accentMix_def)
qed

theorem cellColor_resolver_witness:
  "cellColor defaultParams (palette (updatePalette initialComponent)) (Some 1) 0 = CssString ''#D9D7D2''
   \<and> cellColor defaultParams (palette (updatePalette initialComponent)) (Some 2) 1 = CssString ''#FFEAEA''
   \<and> cellColor defaultParams (palette (updatePalette initialComponent)) (Some 1) (1 / 2) = CssRgb 231 231 214"
proof -
  have ty: "Some (1::nat) \<noteq> Some 0" "Some (2::nat) \<noteq> Some 0" by simp_all
  show ?thesis
    using cellColor_resolver [OF ty(1), of 0 defaultParams "palette (updatePalette initialComponent)"]
      cellColor_resolver [OF ty(2), of 1 defaultParams "palette (updatePalette initialComponent)"]
      cellColor_resolver [OF ty(1), of "1 / 2" defaultParams "palette (updatePalette initialComponent)"]
    by (simp add: defaultPalette accentMix_def cellColor_def lerpColor_def lerpChannel_def jsRound_def
        defaultParams_def)
qed

text \<open>
  With the palette of the source, a yellow cell with the mix 1/64 (between 0.01 and 0.99)
  is painted \<^verbatim>\<open>rgb(217, 216, 210)\<close>: the red and the blue channel equal the base
  channels 217 and 210, although the accent channels are 245 and 217.
\<close>

theorem cellColor_not_strictly_between_counterexample:
  "cellColor defaultParams (palette (updatePalette initialComponent)) (Some 1) (1 / 64)
     = CssRgb 217 216 210
   \<and> gray (palette (updatePalette initialComponent)) = \<lparr>rgb_r = 217, rgb_g = 215, rgb_b = 210\<rparr>
   \<and> yellow (palette (updatePalette initialComponent)) = \<lparr>rgb_r = 245, rgb_g = 247, rgb_b = 217\<rparr>"
  by (simp add: defaultPalette accentMix_def cellColor_def lerpColor_def lerpChannel_def jsRound_def
      defaultParams_def)

section \<open>Properties of the grid builder\<close>

subsection \<open>No accent next to an earlier accent\<close>

lemma upto_m1_0: "[- 1 .. (0::int)] = [- 1, 0]" by (simp add: upto.simps)
lemma upto_m1_1: "[- 1 .. (1::int)] = [- 1, 0, 1]" by (simp add: upto.simps)
lemma upto_m1_m1: "[- 1 .. (- 1::int)] = [- 1]" by (simp add: upto.simps)

lemma hasAccentNeighbor_unfold:
  "hasAccentNeighbor c r types x y =
     (let ok = (\<lambda>nx ny. nx \<ge> 0 \<and> nx < c \<and> ny \<ge> 0 \<and> ny < r \<and> readAt types (nat (ny * c + nx)) \<noteq> Some 0)
      in ok (x - 1) (y - 1) \<or> ok x (y - 1) \<or> ok (x + 1) (y - 1) \<or> ok (x - 1) y)"
  by (simp add: hasAccentNeighbor_def radius_def upto_m1_0 upto_m1_1 upto_m1_m1 Let_def)

lemma halfNeighborhood_less:
  assumes "j \<in> set (halfNeighborhood c r i)"
  shows "j < i \<and> 0 < c"
proof -
  define x where "x = int i mod c"
  define y where "y = int i div c"
  have i: "int i = y * c + x" by (simp add: x_def y_def)
  from assms have "j \<in> (\<lambda>(nx, ny). nat (ny * c + nx)) `
      {q \<in> set [(x - 1, y), (x - 1, y - 1), (x, y - 1), (x + 1, y - 1)].
         (\<lambda>(nx, ny). 0 \<le> nx \<and> nx < c \<and> 0 \<le> ny \<and> ny < r) q}"
    unfolding halfNeighborhood_def Let_def set_map set_filter x_def y_def .
  then obtain nx ny where
    mem: "(nx, ny) \<in> {(x - 1, y), (x - 1, y - 1), (x, y - 1), (x + 1, y - 1)}"
    and inb: "0 \<le> nx" "nx < c" "0 \<le> ny" "ny < r" and j: "j = nat (ny * c + nx)"
    by auto
  have c: "0 < c" using inb by simp
  have x: "0 \<le> x" "x < c" using c by (simp_all add: x_def)
  have "ny * c + nx < int i"
  proof (cases "ny = y")
    case True
    with mem have "nx = x - 1" by auto
    with True i show ?thesis by simp
  next
    case False
    with mem have ny: "ny = y - 1" by auto
    have "ny * c + nx < ny * c + c" using inb by simp
    also have "\<dots> = y * c" by (simp add: ny algebra_simps)
    also have "\<dots> \<le> int i" using i x by simp
    finally show ?thesis .
  qed
  moreover have "0 \<le> ny * c + nx" using inb c by simp
  ultimately have "j < i" unfolding j by (simp add: nat_less_iff)
  with c show ?thesis by simp
qed

lemma no_neighbor_zero:
  assumes "\<not> hasAccentNeighbor c r types (int i mod \<bar>c\<bar>) (int i div c)"
    and "j \<in> set (halfNeighborhood c r i)"
  shows "readAt types j = Some 0"
proof -
  have c: "0 < c" using halfNeighborhood_less [OF assms(2)] by simp
  then have ac: "\<bar>c\<bar> = c" by simp
  define x where "x = int i mod c"
  define y where "y = int i div c"
  from assms(2) have "j \<in> (\<lambda>(nx, ny). nat (ny * c + nx)) `
      {q \<in> set [(x - 1, y), (x - 1, y - 1), (x, y - 1), (x + 1, y - 1)].
         (\<lambda>(nx, ny). 0 \<le> nx \<and> nx < c \<and> 0 \<le> ny \<and> ny < r) q}"
    unfolding halfNeighborhood_def Let_def set_map set_filter x_def y_def .
  then obtain nx ny where
    mem: "(nx, ny) \<in> {(x - 1, y), (x - 1, y - 1), (x, y - 1), (x + 1, y - 1)}"
    and inb: "0 \<le> nx" "nx < c" "0 \<le> ny" "ny < r" and j: "j = nat (ny * c + nx)"
    by auto
  from assms(1) have no: "\<not> (nx' \<ge> 0 \<and> nx' < c \<and> ny' \<ge> 0 \<and> ny' < r
        \<and> readAt types (nat (ny' * c + nx')) \<noteq> Some 0)"
    if "(nx', ny') \<in> {(x - 1, y), (x - 1, y - 1), (x, y - 1), (x + 1, y - 1)}" for nx' ny'
    using that unfolding hasAccentNeighbor_unfold ac Let_def x_def y_def by blast
  from no [OF mem] inb j show ?thesis by blast
qed


lemma initCell_shape:
  "cols (fst (initCell rng p i s)) = cols (fst s)"
  "rows (fst (initCell rng p i s)) = rows (fst s)"
  "length (targetTypes (fst (initCell rng p i s))) = length (targetTypes (fst s))"
  "length (biases (fst (initCell rng p i s))) = length (biases (fst s))"
  "length (activations (fst (initCell rng p i s))) = length (activations (fst s))"
  by (simp_all add: initCell_def Let_def)

lemma initCell_types:
  "\<exists>ty. targetTypes (fst (initCell rng p i s)) = (targetTypes (fst s))[i := ty]
     \<and> (ty \<noteq> 0 \<longrightarrow>
          \<not> hasAccentNeighbor (cols (fst s)) (rows (fst s)) (targetTypes (fst s))
              (int i mod \<bar>cols (fst s)\<bar>) (int i div cols (fst s)))"
  by (auto simp: initCell_def Let_def)

lemma initCell_spread:
  assumes inv: "\<forall>i' < i. \<forall>j \<in> set (halfNeighborhood (cols (fst s)) (rows (fst s)) i').
            targetTypes (fst s) ! i' \<noteq> 0 \<longrightarrow> targetTypes (fst s) ! j = 0"
    and len: "i < length (targetTypes (fst s))"
  shows "\<forall>i' < Suc i. \<forall>j \<in> set (halfNeighborhood (cols (fst s)) (rows (fst s)) i').
            targetTypes (fst (initCell rng p i s)) ! i' \<noteq> 0
              \<longrightarrow> targetTypes (fst (initCell rng p i s)) ! j = 0"
proof (intro allI impI ballI)
  fix i' j
  assume i': "i' < Suc i"
    and j: "j \<in> set (halfNeighborhood (cols (fst s)) (rows (fst s)) i')"
    and nz: "targetTypes (fst (initCell rng p i s)) ! i' \<noteq> 0"
  obtain ty where ty: "targetTypes (fst (initCell rng p i s)) = (targetTypes (fst s))[i := ty]"
    and near: "ty \<noteq> 0 \<longrightarrow>
          \<not> hasAccentNeighbor (cols (fst s)) (rows (fst s)) (targetTypes (fst s))
              (int i mod \<bar>cols (fst s)\<bar>) (int i div cols (fst s))"
    using initCell_types by blast
  have ji: "j < i'" using halfNeighborhood_less [OF j] by simp
  then have jlt: "j < i" using i' by simp
  show "targetTypes (fst (initCell rng p i s)) ! j = 0"
  proof (cases "i' = i")
    case True
    with nz ty len have "ty \<noteq> 0" by simp
    with near j True have "readAt (targetTypes (fst s)) j = Some 0"
      by (intro no_neighbor_zero) auto
    then have "targetTypes (fst s) ! j = 0"
      by (simp add: readAt_def split: if_splits)
    with jlt show ?thesis by (simp add: ty)
  next
    case False
    with i' have lt: "i' < i" by simp
    with nz have "targetTypes (fst s) ! i' \<noteq> 0" by (simp add: ty)
    with inv lt j have "targetTypes (fst s) ! j = 0" by blast
    with jlt show ?thesis by (simp add: ty)
  qed
qed

lemma initLoop_shape:
  "cols (fst (initLoop rng p n i s)) = cols (fst s)
   \<and> rows (fst (initLoop rng p n i s)) = rows (fst s)
   \<and> length (targetTypes (fst (initLoop rng p n i s))) = length (targetTypes (fst s))
   \<and> length (biases (fst (initLoop rng p n i s))) = length (biases (fst s))
   \<and> length (activations (fst (initLoop rng p n i s))) = length (activations (fst s))"
proof (induction rng p n i s rule: initLoop.induct)
  case (1 rng p numCells i s)
  show ?case
  proof (cases "int i < numCells")
    case True
    with "1.IH" show ?thesis
      by (subst (1 2 3 4 5) initLoop.simps) (simp add: initCell_shape)
  next
    case False
    then show ?thesis by (simp add: initLoop.simps)
  qed
qed

lemma initLoop_spread:
  assumes "\<forall>i' < i. \<forall>j \<in> set (halfNeighborhood (cols (fst s)) (rows (fst s)) i').
            targetTypes (fst s) ! i' \<noteq> 0 \<longrightarrow> targetTypes (fst s) ! j = 0"
    and "int (length (targetTypes (fst s))) = n"
  shows "\<forall>i' < max i (length (targetTypes (fst s))).
           \<forall>j \<in> set (halfNeighborhood (cols (fst s)) (rows (fst s)) i').
            targetTypes (fst (initLoop rng p n i s)) ! i' \<noteq> 0
              \<longrightarrow> targetTypes (fst (initLoop rng p n i s)) ! j = 0"
  using assms
proof (induction rng p n i s rule: initLoop.induct)
  case (1 rng p numCells i s)
  show ?case
  proof (cases "int i < numCells")
    case True
    then have len: "i < length (targetTypes (fst s))" using "1.prems"(2) by simp
    have step: "\<forall>i' < Suc i. \<forall>j \<in> set (halfNeighborhood (cols (fst (initCell rng p i s)))
            (rows (fst (initCell rng p i s))) i').
            targetTypes (fst (initCell rng p i s)) ! i' \<noteq> 0
              \<longrightarrow> targetTypes (fst (initCell rng p i s)) ! j = 0"
      using initCell_spread [OF "1.prems"(1) len] by (simp add: initCell_shape)
    have len': "int (length (targetTypes (fst (initCell rng p i s)))) = numCells"
      using "1.prems"(2) by (simp add: initCell_shape)
    have mx: "max (Suc i) (length (targetTypes (fst s))) = max i (length (targetTypes (fst s)))"
      using len by simp
    from "1.IH" [OF True] step len'
    show ?thesis
      by (subst (1 2) initLoop.simps) (simp add: True initCell_shape mx)
  next
    case False
    then have "max i (length (targetTypes (fst s))) = i" using "1.prems"(2) by simp
    with False "1.prems"(1) show ?thesis by (simp add: initLoop.simps)
  qed
qed

lemma initGrid_Inr:
  assumes "initGrid env st w h = Inr st'"
  shows "\<exists>c r. pixelSize (params st) + gap (params st) \<noteq> 0
     \<and> c = \<lceil>w / (pixelSize (params st) + gap (params st))\<rceil>
     \<and> r = \<lceil>h / (pixelSize (params st) + gap (params st))\<rceil>
     \<and> 0 \<le> c * r
     \<and> st' = (updatePalette st)\<lparr>gridData := Some (fst (initLoop (seedrandom env ''grid-layout-fixed'')
          (params st) (c * r) 0
          (\<lparr>cols = c, rows = r, targetTypes = replicate (nat (c * r)) 0,
            biases = replicate (nat (c * r)) 0, activations = replicate (nat (c * r)) 0\<rparr>, 0)))\<rparr>"
  using assms
  by (auto simp: initGrid_def Let_def updatePalette_def split: if_splits)

text \<open>
  Claim C3. After every build that returns a grid, a cell \<open>i\<close> with a type other than 0
  has no predecessor in its half-neighbourhood (left, up-left, up, up-right, inside the
  grid) with a type other than 0. Every such predecessor has a smaller index.
\<close>

theorem accents_have_no_accent_predecessor:
  assumes "initGrid env st w h = Inr st'" and "gridData st' = Some g"
    and "i < length (targetTypes g)" and "targetTypes g ! i \<noteq> 0"
    and "j \<in> set (halfNeighborhood (cols g) (rows g) i)"
  shows "j < i \<and> targetTypes g ! j = 0"
proof -
  from initGrid_Inr [OF assms(1)] obtain c r where
    nn: "0 \<le> c * r" and
    st': "st' = (updatePalette st)\<lparr>gridData := Some (fst (initLoop (seedrandom env ''grid-layout-fixed'')
          (params st) (c * r) 0
          (\<lparr>cols = c, rows = r, targetTypes = replicate (nat (c * r)) 0,
            biases = replicate (nat (c * r)) 0, activations = replicate (nat (c * r)) 0\<rparr>, 0)))\<rparr>"
    by blast
  define g0 where "g0 = \<lparr>cols = c, rows = r, targetTypes = replicate (nat (c * r)) (0::nat),
            biases = replicate (nat (c * r)) (0::real), activations = replicate (nat (c * r)) (0::real)\<rparr>"
  define rng where "rng = seedrandom env ''grid-layout-fixed''"
  have g: "g = fst (initLoop rng (params st) (c * r) 0 (g0, 0))"
    using assms(2) by (simp add: st' g0_def rng_def)
  have shape: "cols g = c" "rows g = r" "length (targetTypes g) = nat (c * r)"
    using initLoop_shape [of rng "params st" "c * r" 0 "(g0, 0)"] by (simp_all add: g g0_def)
  have "\<forall>i' < max 0 (length (targetTypes (fst (g0, 0::nat)))).
           \<forall>j \<in> set (halfNeighborhood (cols (fst (g0, 0::nat))) (rows (fst (g0, 0::nat))) i').
            targetTypes (fst (initLoop rng (params st) (c * r) 0 (g0, 0))) ! i' \<noteq> 0
              \<longrightarrow> targetTypes (fst (initLoop rng (params st) (c * r) 0 (g0, 0))) ! j = 0"
    using nn by (intro initLoop_spread) (simp_all add: g0_def)
  then have "\<forall>i' < length (targetTypes g). \<forall>j \<in> set (halfNeighborhood (cols g) (rows g) i').
      targetTypes g ! i' \<noteq> 0 \<longrightarrow> targetTypes g ! j = 0"
    unfolding g [symmetric] using shape by (simp add: g0_def)
  with assms(3,4,5) have "targetTypes g ! j = 0" by blast
  with halfNeighborhood_less [OF assms(5)] show ?thesis by simp
qed

theorem accents_have_no_accent_predecessor_witness:
  "\<exists>st' g. initGrid exampleEnv initialComponent 24 16 = Inr st' \<and> gridData st' = Some g
     \<and> cols g = 3 \<and> rows g = 2 \<and> targetTypes g = [2, 0, 1, 0, 0, 0]
     \<and> halfNeighborhood (cols g) (rows g) 2 = [1]
     \<and> targetTypes g ! 2 = 1 \<and> targetTypes g ! 1 = 0"
proof -
  have "case initGrid exampleEnv initialComponent 24 16 of
          Inl e \<Rightarrow> False
        | Inr st' \<Rightarrow>
            (case gridData st' of
               None \<Rightarrow> False
             | Some g \<Rightarrow> cols g = 3 \<and> rows g = 2 \<and> targetTypes g = [2, 0, 1, 0, 0, 0])"
    by code_simp
  then obtain st' g where
    b: "initGrid exampleEnv initialComponent 24 16 = Inr st'" and g: "gridData st' = Some g"
    and v: "cols g = 3" "rows g = 2" "targetTypes g = [2, 0, 1, 0, 0, 0]"
    by (auto split: sum.splits option.splits)
  have h: "halfNeighborhood (cols g) (rows g) 2 = [1]"
    by (simp add: v halfNeighborhood_def)
  have "(1::nat) < 2 \<and> targetTypes g ! 1 = 0"
    using accents_have_no_accent_predecessor [OF b g, of 2 1] by (simp add: h) (simp add: v)
  with b g v h show ?thesis by simp
qed

subsection \<open>The build depends on the shape and the probabilities only\<close>

lemma initCell_params:
  "accentYellowProb p1 = accentYellowProb p2 \<Longrightarrow> accentPinkProb p1 = accentPinkProb p2 \<Longrightarrow>
   initCell rng p1 i s = initCell rng p2 i s"
  unfolding initCell_def by (simp only:)

lemma initLoop_params:
  "accentYellowProb p1 = accentYellowProb p2 \<Longrightarrow> accentPinkProb p1 = accentPinkProb p2 \<Longrightarrow>
   initLoop rng p1 n i s = initLoop rng p2 n i s"
proof (induction rng p1 n i s rule: initLoop.induct)
  case (1 rng p numCells i s)
  show ?case
  proof (cases "int i < numCells")
    case True
    have "initLoop rng p numCells i s = initLoop rng p numCells (i + 1) (initCell rng p i s)"
      using True by (subst initLoop.simps) simp
    also have "\<dots> = initLoop rng p2 numCells (i + 1) (initCell rng p i s)"
      using "1.IH" [OF True "1.prems"] .
    also have "\<dots> = initLoop rng p2 numCells (i + 1) (initCell rng p2 i s)"
      using initCell_params [OF "1.prems"] by simp
    also have "\<dots> = initLoop rng p2 numCells i s"
      using True by (subst (2) initLoop.simps) simp
    finally show ?thesis .
  next
    case False
    then show ?thesis by (simp add: initLoop.simps)
  qed
qed

text \<open>
  Claim C4. Two builds with the same width and height, from two states of the component
  whose parameters agree on \<open>pixelSize\<close>, \<open>gap\<close>, \<open>accentYellowProb\<close> and
  \<open>accentPinkProb\<close> (and may differ in everything else, the grid built before included),
  either fail alike or produce the same grid: the same \<open>targetTypes\<close> and \<open>biases\<close>. The
  generator is made anew from the constant seed by every build.
\<close>

theorem build_is_deterministic:
  assumes "pixelSize (params st1) = pixelSize (params st2)"
    and "gap (params st1) = gap (params st2)"
    and "accentYellowProb (params st1) = accentYellowProb (params st2)"
    and "accentPinkProb (params st1) = accentPinkProb (params st2)"
  shows "(\<exists>e. initGrid env st1 w h = Inl e \<and> initGrid env st2 w h = Inl e)
       \<or> (\<exists>st1' st2' g. initGrid env st1 w h = Inr st1' \<and> initGrid env st2 w h = Inr st2'
             \<and> gridData st1' = Some g \<and> gridData st2' = Some g)"
  using assms initLoop_params [OF assms(3,4)]
  by (simp add: initGrid_def Let_def updatePalette_def)


theorem build_is_deterministic_witness:
  "\<exists>st1' st2' g.
     initGrid exampleEnv initialComponent 24 16 = Inr st1'
     \<and> initGrid exampleEnv
           (initialComponent
              \<lparr>params := defaultParams\<lparr>baseGrayStr := ''#000000'', maskHeight := 1 / 2, smoothing := 1\<rparr>,
               gridData := Some \<lparr>cols = 1, rows = 1, targetTypes = [1], biases = [0],
                                 activations = [1 / 2]\<rparr>\<rparr>) 24 16 = Inr st2'
     \<and> gridData st1' = Some g \<and> gridData st2' = Some g
     \<and> targetTypes g = [2, 0, 1, 0, 0, 0] \<and> biases g = [- 1, 0, 1 / 2, - (1 / 2), 0, 1 / 2]"
proof -
  let ?st2 = "initialComponent
              \<lparr>params := defaultParams\<lparr>baseGrayStr := ''#000000'', maskHeight := 1 / 2, smoothing := 1\<rparr>,
               gridData := Some \<lparr>cols = 1, rows = 1, targetTypes = [1], biases = [0],
                                 activations = [1 / 2]\<rparr>\<rparr>"
  have one: "case initGrid exampleEnv initialComponent 24 16 of
          Inl e \<Rightarrow> False
        | Inr st' \<Rightarrow>
            (case gridData st' of
               None \<Rightarrow> False
             | Some g \<Rightarrow> targetTypes g = [2, 0, 1, 0, 0, 0]
                 \<and> biases g = [- 1, 0, 1 / 2, - (1 / 2), 0, 1 / 2])"
    by code_simp
  have "(\<exists>e. initGrid exampleEnv initialComponent 24 16 = Inl e
            \<and> initGrid exampleEnv ?st2 24 16 = Inl e)
       \<or> (\<exists>st1' st2' g. initGrid exampleEnv initialComponent 24 16 = Inr st1'
             \<and> initGrid exampleEnv ?st2 24 16 = Inr st2'
             \<and> gridData st1' = Some g \<and> gridData st2' = Some g)"
    by (rule build_is_deterministic) (simp_all add: initialComponent_def defaultParams_def)
  with one show ?thesis by (auto split: sum.splits option.splits)
qed

subsection \<open>Degenerate surfaces\<close>

lemma colLoop_done: "c \<le> int x \<Longrightarrow> colLoop env p pal t m c y x s = Inr s"
  by (simp add: colLoop.simps)

lemma rowLoop_no_cols: "c \<le> 0 \<Longrightarrow> rowLoop env p pal t c r y s = Inr s"
proof (induction env p pal t c r y s rule: rowLoop.induct)
  case (1 env p pal t c r y s)
  show ?case
  proof (cases "int y < r")
    case True
    have col: "colLoop env p pal t (rowMask p r y) c y 0 s = Inr s"
      using "1.prems" by (simp add: colLoop_done)
    show ?thesis
    proof (cases "case rowMask p r y of Some maskVal \<Rightarrow> maskVal \<le> 0 | None \<Rightarrow> False")
      case skip: True
      with True "1.IH"(1) [OF True refl skip "1.prems"] show ?thesis
        by (subst rowLoop.simps) simp
    next
      case draw: False
      with True "1.IH"(2) [OF True refl draw col "1.prems"] col show ?thesis
        by (subst rowLoop.simps) simp
    qed
  next
    case False
    then show ?thesis by (simp add: rowLoop.simps)
  qed
qed

lemma rowLoop_done: "r \<le> int y \<Longrightarrow> rowLoop env p pal t c r y s = Inr s"
  by (simp add: rowLoop.simps)

lemma ceiling_zero: "- 1 < (q::real) \<Longrightarrow> q \<le> 0 \<Longrightarrow> \<lceil>q\<rceil> = 0"
  by (simp add: ceiling_eq_iff)

lemma degenerate_quotient:
  assumes "0 < (d::real)" "- d < w" "w \<le> 0"
  shows "\<lceil>w / d\<rceil> = 0"
proof -
  have "- 1 < w / d" using assms by (simp add: less_divide_eq)
  moreover have "w / d \<le> 0" using assms by (simp add: divide_le_0_iff)
  ultimately show ?thesis by (rule ceiling_zero)
qed

lemma initGrid_built:
  assumes "pixelSize (params st) + gap (params st) \<noteq> 0"
    and "c = \<lceil>w / (pixelSize (params st) + gap (params st))\<rceil>"
    and "r = \<lceil>h / (pixelSize (params st) + gap (params st))\<rceil>"
    and "0 \<le> c * r"
  shows "initGrid env st w h =
     Inr ((updatePalette st)\<lparr>gridData := Some (fst (initLoop (seedrandom env ''grid-layout-fixed'')
          (params st) (c * r) 0
          (\<lparr>cols = c, rows = r, targetTypes = replicate (nat (c * r)) 0,
            biases = replicate (nat (c * r)) 0, activations = replicate (nat (c * r)) 0\<rparr>, 0)))\<rparr>)"
  using assms by (simp add: initGrid_def Let_def updatePalette_def)

lemma initLoop_none: "initLoop rng p 0 0 s = s"
  by (simp add: initLoop.simps)

text \<open>
  Claim C2, as the code has it. With a positive pitch and a width or a height that is 0,
  or negative and above \<open>- pitch\<close>, the build returns a grid with \<open>cols = 0\<close> or
  \<open>rows = 0\<close> and no cell, and a frame drawn on it paints nothing and changes nothing.
\<close>

theorem degenerate_surface_gives_empty_grid:
  assumes pitch: "0 < pixelSize (params st) + gap (params st)"
    and deg: "(- (pixelSize (params st) + gap (params st)) < w \<and> w \<le> 0)
            \<or> (- (pixelSize (params st) + gap (params st)) < h \<and> h \<le> 0)"
  shows "\<exists>st' g. initGrid env st w h = Inr st' \<and> gridData st' = Some g
           \<and> (cols g = 0 \<or> rows g = 0)
           \<and> targetTypes g = [] \<and> biases g = [] \<and> activations g = []
           \<and> draw env st' time = Inr (st', [])"
proof -
  define d where "d = pixelSize (params st) + gap (params st)"
  define c where "c = \<lceil>w / d\<rceil>"
  define r where "r = \<lceil>h / d\<rceil>"
  define g where "g = \<lparr>cols = c, rows = r, targetTypes = ([]::nat list),
      biases = ([]::real list), activations = ([]::real list)\<rparr>"
  define st' where "st' = (updatePalette st)\<lparr>gridData := Some g\<rparr>"
  have cr: "c = 0 \<or> r = 0"
    using deg degenerate_quotient [of d w] degenerate_quotient [of d h] pitch
    by (auto simp: c_def r_def d_def)
  then have n: "c * r = 0" by auto
  have "d \<noteq> 0" using pitch by (simp add: d_def)
  from initGrid_built [OF this [unfolded d_def] c_def [unfolded d_def] r_def [unfolded d_def], of env]
  have build: "initGrid env st w h = Inr st'"
    unfolding n by (simp add: initLoop_none st'_def g_def)
  have rows: "rowLoop env (params st') (palette st') t c r 0 (g, []) = Inr (g, [])" for t
    using cr by (auto simp: rowLoop_no_cols rowLoop_done)
  have "draw env st' time = Inr (st', [])"
    using rows by (simp add: draw_def st'_def g_def Let_def)
  with build cr show ?thesis
    by (intro exI [of _ st'] exI [of _ g]) (simp add: st'_def g_def)
qed

theorem degenerate_surface_gives_empty_grid_witness:
  "\<exists>st' g. initGrid exampleEnv initialComponent 0 100 = Inr st' \<and> gridData st' = Some g
           \<and> cols g = 0 \<and> rows g = 13
           \<and> targetTypes g = [] \<and> biases g = [] \<and> activations g = []
           \<and> draw exampleEnv st' 1000 = Inr (st', [])"
proof -
  have p: "0 < pixelSize (params initialComponent) + gap (params initialComponent)"
    by (simp add: initialComponent_def defaultParams_def)
  have d: "(- (pixelSize (params initialComponent) + gap (params initialComponent)) < 0 \<and> (0::real) \<le> 0)
            \<or> (- (pixelSize (params initialComponent) + gap (params initialComponent)) < 100 \<and> (100::real) \<le> 0)"
    by (simp add: initialComponent_def defaultParams_def)
  from degenerate_surface_gives_empty_grid [OF p d, of exampleEnv 1000]
  obtain st' g where b: "initGrid exampleEnv initialComponent 0 100 = Inr st'"
    and g: "gridData st' = Some g" "targetTypes g = []" "biases g = []" "activations g = []"
    and dr: "draw exampleEnv st' 1000 = Inr (st', [])"
    by blast
  have "case initGrid exampleEnv initialComponent 0 100 of
          Inl e \<Rightarrow> False
        | Inr st' \<Rightarrow> (case gridData st' of None \<Rightarrow> False | Some g \<Rightarrow> cols g = 0 \<and> rows g = 13)"
    by code_simp
  with b g have "cols g = 0 \<and> rows g = 13" by simp
  with b g dr show ?thesis by blast
qed

text \<open>
  A width of \<open>- 10\<close> with a height of 100 and the pitch 8 of the source gives \<open>cols = - 1\<close>
  and \<open>rows = 13\<close>: the length \<open>- 13\<close> makes \<^verbatim>\<open>new Uint8Array\<close> throw.
\<close>

theorem negative_width_counterexample:
  "initGrid exampleEnv initialComponent (- 10) 100 = Inl RangeError"
  by (simp add: initGrid_def Let_def updatePalette_def initialComponent_def defaultParams_def)

text \<open>
  With a width and a height of \<open>- 10\<close> the build returns a grid of one cell with
  \<open>cols = - 1\<close> and \<open>rows = - 1\<close>.
\<close>

lemma both_negative_example:
  "case initGrid exampleEnv initialComponent (- 10) (- 10) of
          Inl e \<Rightarrow> False
        | Inr st' \<Rightarrow> (case gridData st' of None \<Rightarrow> False | Some g \<Rightarrow> cols g = - 1 \<and> rows g = - 1 \<and> targetTypes g = [2])"
  by code_simp

section \<open>Properties of a frame\<close>

subsection \<open>Invariants of the two loops\<close>

lemma colLoop_preserves:
  "colLoop env p pal t m c y x s = Inr s' \<Longrightarrow> P (fst s) \<Longrightarrow>
   (\<And>x' g g' f. x \<le> x' \<Longrightarrow> int x' < c \<Longrightarrow> drawCell env p pal t m c y x' g = Inr (g', f) \<Longrightarrow> P g \<Longrightarrow> P g') \<Longrightarrow>
   P (fst s')"
proof (induction env p pal t m c y x s rule: colLoop.induct)
  case (1 env p pal t m c y x s)
  show ?case
  proof (cases "int x < c")
    case True
    show ?thesis
    proof (cases "drawCell env p pal t m c y x (fst s)")
      case (Inl e)
      with True "1.prems"(1) show ?thesis by (simp add: colLoop.simps)
    next
      case (Inr q)
      obtain g' f where q: "q = (g', f)" by (cases q)
      have rec: "colLoop env p pal t m c y (x + 1) (g', snd s @ [f]) = Inr s'"
        using True Inr q "1.prems"(1) by (simp add: colLoop.simps)
      have Pg': "P g'"
        using "1.prems"(3) [OF le_refl True Inr [unfolded q] "1.prems"(2)] .
      show ?thesis
      proof (rule "1.IH" [OF True Inr q [symmetric] rec])
        show "P (fst (g', snd s @ [f]))" using Pg' by simp
      next
        fix x' g g' f
        assume "x + 1 \<le> x'" "int x' < c" "drawCell env p pal t m c y x' g = Inr (g', f)" "P g"
        then show "P g'" using "1.prems"(3) [of x' g g' f] by simp
      qed
    qed
  next
    case False
    with "1.prems"(1,2) show ?thesis by (simp add: colLoop.simps)
  qed
qed


lemma rowLoop_preserves:
  "rowLoop env p pal t c r y s = Inr s' \<Longrightarrow> P (fst s) \<Longrightarrow>
   (\<And>y' x' g g' f. y \<le> y' \<Longrightarrow> int y' < r \<Longrightarrow>
        \<not> (case rowMask p r y' of Some maskVal \<Rightarrow> maskVal \<le> 0 | None \<Rightarrow> False) \<Longrightarrow>
        int x' < c \<Longrightarrow>
        drawCell env p pal t (rowMask p r y') c y' x' g = Inr (g', f) \<Longrightarrow> P g \<Longrightarrow> P g') \<Longrightarrow>
   P (fst s')"
proof (induction env p pal t c r y s rule: rowLoop.induct)
  case (1 env p pal t c r y s)
  have later: "P g'"
    if "y + 1 \<le> y'" "int y' < r"
      "\<not> (case rowMask p r y' of Some maskVal \<Rightarrow> maskVal \<le> 0 | None \<Rightarrow> False)"
      "int x' < c" "drawCell env p pal t (rowMask p r y') c y' x' g = Inr (g', f)" "P g"
    for y' x' g g' f
    using "1.prems"(3) [of y' x' g g' f] that by simp
  show ?case
  proof (cases "int y < r")
    case True
    show ?thesis
    proof (cases "case rowMask p r y of Some maskVal \<Rightarrow> maskVal \<le> 0 | None \<Rightarrow> False")
      case skip: True
      have rec: "rowLoop env p pal t c r (y + 1) s = Inr s'"
        using True skip "1.prems"(1) by (subst (asm) rowLoop.simps) simp
      show ?thesis
        by (rule "1.IH"(1) [OF True refl skip rec "1.prems"(2)]) (rule later)
    next
      case paint: False
      show ?thesis
      proof (cases "colLoop env p pal t (rowMask p r y) c y 0 s")
        case (Inl e)
        with True paint "1.prems"(1) show ?thesis
          by (subst (asm) rowLoop.simps) simp
      next
        case (Inr s1)
        have rec: "rowLoop env p pal t c r (y + 1) s1 = Inr s'"
          using True paint Inr "1.prems"(1) by (subst (asm) rowLoop.simps) simp
        have P1: "P (fst s1)"
        proof (rule colLoop_preserves [where P = P, OF Inr "1.prems"(2)])
          fix x' g g' f
          assume "int x' < c" "drawCell env p pal t (rowMask p r y) c y x' g = Inr (g', f)" "P g"
          then show "P g'" using "1.prems"(3) [OF le_refl True paint] by blast
        qed
        show ?thesis
          by (rule "1.IH"(2) [OF True refl paint Inr rec P1]) (rule later)
      qed
    qed
  next
    case False
    with "1.prems"(1,2) show ?thesis by (simp add: rowLoop.simps)
  qed
qed

lemma drawCell_Inr:
  assumes "drawCell env p pal t m c y x g = Inr (g', f)"
  shows "\<exists>bias a target. readAt (biases g) (nat (int y * c + int x)) = Some bias
     \<and> readAt (activations g) (nat (int y * c + int x)) = Some a
     \<and> cellTarget env p t x y bias = Some target
     \<and> g' = g\<lparr>activations :=
          (activations g)[nat (int y * c + int x) := smoothActivation a target (smoothing p)]\<rparr>"
  using assms
  by (auto simp: drawCell_def Let_def split: option.splits if_splits)




lemma draw_Inr:
  assumes "draw env st time = Inr (st', out)" and "gridData st = Some g"
  shows "(\<not> canvasReady env \<and> st' = st \<and> out = [])
       \<or> (\<exists>g' t. canvasReady env \<and> st' = st\<lparr>gridData := Some g'\<rparr>
             \<and> rowLoop env (params st) (palette st) t (cols g) (rows g) 0 (g, []) = Inr (g', out))"
  using assms by (auto simp: draw_def Let_def split: sum.splits if_splits)

lemma cell_index_distinct:
  assumes "y \<noteq> y'" "int x < c" "int x' < c"
  shows "nat (int y * c + int x) \<noteq> nat (int y' * c + int x')"
proof -
  have c: "0 < c" using assms(2) by linarith
  have less: "int a * c + int u < int b * c + int v" if "a < b" "int u < c" for a b u v :: nat
  proof -
    have "int a * c + int u < int a * c + c" using that by simp
    also have "\<dots> = (int a + 1) * c" by (simp add: algebra_simps)
    also have "\<dots> \<le> int b * c" using that c by (intro mult_right_mono) auto
    also have "\<dots> \<le> int b * c + int v" by simp
    finally show ?thesis .
  qed
  have nn: "0 \<le> int a * c + int u" for a u :: nat using c by simp
  consider "y < y'" | "y' < y" using assms(1) by linarith
  then have "int y * c + int x \<noteq> int y' * c + int x'"
  proof cases
    case 1
    from less [OF 1 assms(2), of x'] show ?thesis by simp
  next
    case 2
    from less [OF 2 assms(3), of x] show ?thesis by simp
  qed
  then show ?thesis using nn [of y x] nn [of y' x'] by (simp add: nat_eq_iff)
qed

subsection \<open>When a frame completes\<close>

text \<open>
  A frame returns a result in the model (no \<^verbatim>\<open>NaN\<close> arises) when the three feathers are
  not 0, \<open>mixGamma\<close> is not negative and the arrays have a cell for every index, as those
  of a grid that \<open>initGrid\<close> built have.
\<close>

lemma cellTarget_returns:
  assumes "macroFeather p \<noteq> 0" "microFeather p \<noteq> 0" "0 \<le> mixGamma p"
  shows "\<exists>target. cellTarget env p t x y bias = Some target"
proof -
  define macroVal where "macroVal = (macroNoise env ((real x + t * macroVx p) * macroScale p)
      ((real y + t * macroVy p) * macroScale p) (t * macroTimeScale p) + 1) * (1 / 2)"
  define microVal where "microVal = (microNoise env ((real x + t * macroVx p) * microScale p)
      ((real y + t * macroVy p) * microScale p) (t * microTimeScale p) + 1) * (1 / 2)"
  have m: "\<exists>v. smoothMask u th f = Some v" if "f \<noteq> 0" for u th f
    using that by (simp add: smoothMask_def clampDiv_def)
  from m [OF assms(1)] obtain macroMask where
    ma: "smoothMask macroVal (macroThreshold p) (macroFeather p) = Some macroMask" by blast
  from m [OF assms(2)] obtain microMask where
    mi: "smoothMask microVal (microThreshold p) (microFeather p) = Some microMask" by blast
  have pw: "\<exists>v. jsPow u (mixGamma p) = Some v" for u
    using assms(3) by (simp add: jsPow_def)
  then obtain v where
    "jsPow (max 0 (min 1 (macroMask * microMask + bias * biasStrength p))) (mixGamma p) = Some v"
    by blast
  then show ?thesis
    unfolding cellTarget_def Let_def macroVal_def [symmetric] microVal_def [symmetric] ma mi
    by simp
qed

lemma drawCell_returns:
  assumes "macroFeather p \<noteq> 0" "microFeather p \<noteq> 0" "0 \<le> mixGamma p"
    and "m \<noteq> None"
    and "nat (int y * c + int x) < length (biases g)"
    and "nat (int y * c + int x) < length (activations g)"
  shows "\<exists>g' f. drawCell env p pal t m c y x g = Inr (g', f)
          \<and> length (biases g') = length (biases g)
          \<and> length (activations g') = length (activations g)"
proof -
  obtain bias where target: "\<exists>target. cellTarget env p t x y (biases g ! nat (int y * c + int x)) = Some target"
    using cellTarget_returns [OF assms(1,2,3)] by blast
  then obtain target where
    tg: "cellTarget env p t x y (biases g ! nat (int y * c + int x)) = Some target" by blast
  from assms(4) obtain maskVal where m: "m = Some maskVal" by auto
  show ?thesis
    using assms(5,6) tg m by (simp add: drawCell_def Let_def readAt_def)
qed

lemma cell_index_in_range:
  assumes "int x < c" "int y < r"
  shows "nat (int y * c + int x) < nat (c * r)"
proof -
  have c: "0 < c" using assms(1) by linarith
  have "int y * c + int x < int y * c + c" using assms(1) by simp
  also have "\<dots> = (int y + 1) * c" by (simp add: algebra_simps)
  also have "\<dots> \<le> r * c" using assms(2) c by (intro mult_right_mono) auto
  finally have "int y * c + int x < c * r" by (simp add: mult.commute)
  moreover have "0 \<le> int y * c + int x" using c by simp
  ultimately show ?thesis by linarith
qed

lemma colLoop_returns:
  assumes "macroFeather p \<noteq> 0" "microFeather p \<noteq> 0" "0 \<le> mixGamma p" "m \<noteq> None" "int y < r"
  shows "nat (c * r) \<le> length (biases (fst s)) \<Longrightarrow> nat (c * r) \<le> length (activations (fst s)) \<Longrightarrow>
         \<exists>s'. colLoop env p pal t m c y x s = Inr s'
           \<and> length (biases (fst s')) = length (biases (fst s))
           \<and> length (activations (fst s')) = length (activations (fst s))"
  using assms
proof (induction env p pal t m c y x s rule: colLoop.induct)
  case (1 env p pal t m c y x s)
  show ?case
  proof (cases "int x < c")
    case True
    have i: "nat (int y * c + int x) < nat (c * r)"
      using True "1.prems"(7) by (rule cell_index_in_range)
    from drawCell_returns [OF "1.prems"(3,4,5,6), of y c x "fst s" env pal t] i "1.prems"(1,2)
    obtain g' f where d: "drawCell env p pal t m c y x (fst s) = Inr (g', f)"
      and l: "length (biases g') = length (biases (fst s))"
         "length (activations g') = length (activations (fst s))"
      by force
    from "1.IH" [OF True d refl] l "1.prems"
    obtain s' where "colLoop env p pal t m c y (x + 1) (g', snd s @ [f]) = Inr s'"
      "length (biases (fst s')) = length (biases (fst s))"
      "length (activations (fst s')) = length (activations (fst s))"
      by auto
    with True d show ?thesis by (subst colLoop.simps) simp
  next
    case False
    then show ?thesis by (simp add: colLoop.simps)
  qed
qed

lemma rowLoop_returns:
  assumes "maskFeatherY p \<noteq> 0" "macroFeather p \<noteq> 0" "microFeather p \<noteq> 0" "0 \<le> mixGamma p"
  shows "nat (c * r) \<le> length (biases (fst s)) \<Longrightarrow> nat (c * r) \<le> length (activations (fst s)) \<Longrightarrow>
         \<exists>s'. rowLoop env p pal t c r y s = Inr s'"
  using assms
proof (induction env p pal t c r y s rule: rowLoop.induct)
  case (1 env p pal t c r y s)
  show ?case
  proof (cases "int y < r")
    case True
    show ?thesis
    proof (cases "case rowMask p r y of Some maskVal \<Rightarrow> maskVal \<le> 0 | None \<Rightarrow> False")
      case skip: True
      from "1.IH"(1) [OF True refl skip "1.prems"] True skip show ?thesis
        by (subst rowLoop.simps) simp
    next
      case paint: False
      have m: "rowMask p r y \<noteq> None"
        using "1.prems"(3) by (simp add: rowMask_def clampDiv_def)
      from colLoop_returns [OF "1.prems"(4,5,6) m True "1.prems"(1,2), of env pal t 0]
      obtain s1 where c: "colLoop env p pal t (rowMask p r y) c y 0 s = Inr s1"
        and l: "length (biases (fst s1)) = length (biases (fst s))"
          "length (activations (fst s1)) = length (activations (fst s))"
        by blast
      from "1.IH"(2) [OF True refl paint c] l "1.prems"
      obtain s' where "rowLoop env p pal t c r (y + 1) s1 = Inr s'" by auto
      with True paint c show ?thesis by (subst rowLoop.simps) simp
    qed
  next
    case False
    then show ?thesis by (simp add: rowLoop.simps)
  qed
qed

lemma draw_returns:
  assumes "maskFeatherY (params st) \<noteq> 0" "macroFeather (params st) \<noteq> 0"
    "microFeather (params st) \<noteq> 0" "0 \<le> mixGamma (params st)"
    and "\<forall>g. gridData st = Some g \<longrightarrow>
           nat (cols g * rows g) \<le> length (biases g) \<and> nat (cols g * rows g) \<le> length (activations g)"
  shows "\<exists>st' out. draw env st time = Inr (st', out)"
proof (cases "gridData st")
  case None
  then show ?thesis by (simp add: draw_def)
next
  case (Some g)
  with assms(5) have l: "nat (cols g * rows g) \<le> length (biases (fst (g, [])))"
    "nat (cols g * rows g) \<le> length (activations (fst (g, [])))" by simp_all
  from rowLoop_returns [OF assms(1,2,3,4) l]
  have "\<exists>s'. rowLoop env (params st) (palette st) t (cols g) (rows g) 0 (g, []) = Inr s'" for t
    by blast
  then show ?thesis
    by (auto simp: draw_def Let_def Some split: sum.splits) (metis Inl_Inr_False)+
qed


subsection \<open>What a frame leaves unchanged\<close>

lemma frame_effect:
  assumes "draw env st time = Inr (st', out)" and "gridData st = Some g"
  shows "\<exists>g'. gridData st' = Some g' \<and> params st' = params st \<and> palette st' = palette st
       \<and> cols g' = cols g \<and> rows g' = rows g
       \<and> targetTypes g' = targetTypes g \<and> biases g' = biases g
       \<and> length (activations g') = length (activations g)
       \<and> (\<forall>y x m. int y < rows g \<and> int x < cols g
             \<and> rowMask (params st) (rows g) y = Some m \<and> m \<le> 0
             \<longrightarrow> activations g' ! nat (int y * cols g + int x)
                 = activations g ! nat (int y * cols g + int x))"
proof -
  from draw_Inr [OF assms] consider
    (none) "st' = st" "out = []"
  | (frame) g' t where "st' = st\<lparr>gridData := Some g'\<rparr>"
      "rowLoop env (params st) (palette st) t (cols g) (rows g) 0 (g, []) = Inr (g', out)"
    by blast
  then show ?thesis
  proof cases
    case none
    with assms(2) show ?thesis by simp
  next
    case frame
    let ?p = "params st"
    have layout: "g'\<lparr>activations := activations g\<rparr> = g \<and> length (activations g') = length (activations g)"
    proof -
      have "fst (g', out)\<lparr>activations := activations g\<rparr> = g
          \<and> length (activations (fst (g', out))) = length (activations g)"
      proof (rule rowLoop_preserves [where P = "\<lambda>h. h\<lparr>activations := activations g\<rparr> = g
            \<and> length (activations h) = length (activations g)", OF frame(2)])
        show "fst (g, [])\<lparr>activations := activations g\<rparr> = g
            \<and> length (activations (fst (g, []))) = length (activations g)" by simp
      next
        fix y' x' h h' f
        assume d: "drawCell env ?p (palette st) t (rowMask ?p (rows g) y') (cols g) y' x' h = Inr (h', f)"
          and h: "h\<lparr>activations := activations g\<rparr> = g \<and> length (activations h) = length (activations g)"
        from drawCell_Inr [OF d] obtain v where
          "h' = h\<lparr>activations := (activations h)[nat (int y' * cols g + int x') := v]\<rparr>" by blast
        with h show "h'\<lparr>activations := activations g\<rparr> = g
            \<and> length (activations h') = length (activations g)" by simp
      qed
      then show ?thesis by simp
    qed
    have fields: "cols g' = cols g" "rows g' = rows g" "targetTypes g' = targetTypes g"
      "biases g' = biases g"
    proof -
      from layout have e: "g'\<lparr>activations := activations g\<rparr> = g" by simp
      show "cols g' = cols g" using arg_cong [OF e, of cols] by simp
      show "rows g' = rows g" using arg_cong [OF e, of rows] by simp
      show "targetTypes g' = targetTypes g" using arg_cong [OF e, of targetTypes] by simp
      show "biases g' = biases g" using arg_cong [OF e, of biases] by simp
    qed
    have frozen: "activations g' ! nat (int y * cols g + int x)
        = activations g ! nat (int y * cols g + int x)"
      if y: "int y < rows g" and x: "int x < cols g"
        and m: "rowMask ?p (rows g) y = Some m" "m \<le> 0" for y x m
    proof -
      let ?k = "nat (int y * cols g + int x)"
      have "activations (fst (g', out)) ! ?k = activations g ! ?k"
      proof (rule rowLoop_preserves [where P = "\<lambda>h. activations h ! ?k = activations g ! ?k",
            OF frame(2)])
        show "activations (fst (g, [])) ! ?k = activations g ! ?k" by simp
      next
        fix y' x' h h' f
        assume paint: "\<not> (case rowMask ?p (rows g) y' of Some maskVal \<Rightarrow> maskVal \<le> 0 | None \<Rightarrow> False)"
          and x': "int x' < cols g"
          and d: "drawCell env ?p (palette st) t (rowMask ?p (rows g) y') (cols g) y' x' h = Inr (h', f)"
          and h: "activations h ! ?k = activations g ! ?k"
        from paint m have "y' \<noteq> y" by auto
        from cell_index_distinct [OF this x' x]
        have ne: "nat (int y' * cols g + int x') \<noteq> ?k" .
        from drawCell_Inr [OF d] obtain v where
          "h' = h\<lparr>activations := (activations h)[nat (int y' * cols g + int x') := v]\<rparr>" by blast
        with ne h show "activations h' ! ?k = activations g ! ?k" by simp
      qed
      then show ?thesis by simp
    qed
    show ?thesis
      using frame(1) layout fields frozen by (intro exI [of _ g']) simp
  qed
qed

text \<open>
  Claim C8. A frame changes nothing of the component but the activations: the parameters,
  the palette, the dimensions, \<open>targetTypes\<close> and \<open>biases\<close> are the same after it, for all
  cells. For every row whose mask value is 0 (the row is skipped), the activation of every
  cell of the row is the same after the frame. The frame returns such a result whenever
  the feathers are not 0, \<open>mixGamma\<close> is not negative and the arrays have all their cells.
\<close>

theorem skipped_rows_and_layout_are_untouched:
  assumes "gridData st = Some g"
  shows "(draw env st time = Inr (st', out) \<longrightarrow>
          (\<exists>g'. gridData st' = Some g' \<and> params st' = params st \<and> palette st' = palette st
             \<and> cols g' = cols g \<and> rows g' = rows g
             \<and> targetTypes g' = targetTypes g \<and> biases g' = biases g
             \<and> length (activations g') = length (activations g)
             \<and> (\<forall>y x m. int y < rows g \<and> int x < cols g
                   \<and> rowMask (params st) (rows g) y = Some m \<and> m \<le> 0
                   \<longrightarrow> activations g' ! nat (int y * cols g + int x)
                       = activations g ! nat (int y * cols g + int x))))
       \<and> (maskFeatherY (params st) \<noteq> 0 \<and> macroFeather (params st) \<noteq> 0
            \<and> microFeather (params st) \<noteq> 0 \<and> 0 \<le> mixGamma (params st)
            \<and> nat (cols g * rows g) \<le> length (biases g)
            \<and> nat (cols g * rows g) \<le> length (activations g) \<longrightarrow>
          (\<exists>st1 out1. draw env st time = Inr (st1, out1)))"
proof (intro conjI impI)
  assume "draw env st time = Inr (st', out)"
  from frame_effect [OF this assms]
  show "\<exists>g'. gridData st' = Some g' \<and> params st' = params st \<and> palette st' = palette st
             \<and> cols g' = cols g \<and> rows g' = rows g
             \<and> targetTypes g' = targetTypes g \<and> biases g' = biases g
             \<and> length (activations g') = length (activations g)
             \<and> (\<forall>y x m. int y < rows g \<and> int x < cols g
                   \<and> rowMask (params st) (rows g) y = Some m \<and> m \<le> 0
                   \<longrightarrow> activations g' ! nat (int y * cols g + int x)
                       = activations g ! nat (int y * cols g + int x))" .
next
  assume "maskFeatherY (params st) \<noteq> 0 \<and> macroFeather (params st) \<noteq> 0
            \<and> microFeather (params st) \<noteq> 0 \<and> 0 \<le> mixGamma (params st)
            \<and> nat (cols g * rows g) \<le> length (biases g)
            \<and> nat (cols g * rows g) \<le> length (activations g)"
  with assms show "\<exists>st1 out1. draw env st time = Inr (st1, out1)"
    by (intro draw_returns) auto
qed

theorem skipped_rows_and_layout_are_untouched_witness:
  "\<exists>st' out g'.
     draw exampleEnv
       \<lparr>params = defaultParams\<lparr>mixGamma := 1\<rparr>, palette = palette (updatePalette initialComponent),
        gridData = Some \<lparr>cols = 3, rows = 2, targetTypes = [2, 0, 1, 0, 0, 0],
                          biases = [- 1, 0, 1 / 2, - (1 / 2), 0, 1 / 2],
                          activations = [1 / 2, 1 / 2, 1 / 2, 1 / 2, 1 / 2, 1 / 2]\<rparr>\<rparr> 1000
       = Inr (st', out)
     \<and> gridData st' = Some g'
     \<and> rowMask (defaultParams\<lparr>mixGamma := 1\<rparr>) 2 0 = Some 0
     \<and> targetTypes g' = [2, 0, 1, 0, 0, 0]
     \<and> biases g' = [- 1, 0, 1 / 2, - (1 / 2), 0, 1 / 2]
     \<and> activations g' = [1 / 2, 1 / 2, 1 / 2, 43 / 80, 23 / 40, 23 / 40]"
proof -
  define g where "g = \<lparr>cols = 3, rows = 2, targetTypes = [2, 0, 1, 0, 0, 0::nat],
                          biases = [- 1, 0, 1 / 2, - (1 / 2), 0, 1 / 2 :: real],
                          activations = [1 / 2, 1 / 2, 1 / 2, 1 / 2, 1 / 2, 1 / 2 :: real]\<rparr>"
  define st where "st = \<lparr>params = defaultParams\<lparr>mixGamma := 1\<rparr>,
      palette = palette (updatePalette initialComponent), gridData = Some g\<rparr>"
  have "case draw exampleEnv st 1000 of
          Inl e \<Rightarrow> False
        | Inr (st', out) \<Rightarrow>
            (case gridData st' of
               None \<Rightarrow> False
             | Some g' \<Rightarrow> drop 3 (activations g') = [43 / 80, 23 / 40, 23 / 40])"
    unfolding st_def g_def by code_simp
  then obtain st' out where d: "draw exampleEnv st 1000 = Inr (st', out)"
    and late: "case gridData st' of None \<Rightarrow> False
             | Some g' \<Rightarrow> drop 3 (activations g') = [43 / 80, 23 / 40, 23 / 40]"
    by (auto split: sum.splits prod.splits)
  have gd: "gridData st = Some g" by (simp add: st_def)
  have m: "rowMask (defaultParams\<lparr>mixGamma := 1\<rparr>) 2 0 = Some 0"
    by (simp add: rowMask_def clampDiv_def defaultParams_def)
  from skipped_rows_and_layout_are_untouched [OF gd, of exampleEnv 1000 st' out] d obtain g' where
    g': "gridData st' = Some g'" and same: "targetTypes g' = targetTypes g" "biases g' = biases g"
    and len: "length (activations g') = length (activations g)"
    and frozen: "\<And>y x m. int y < rows g \<and> int x < cols g
             \<and> rowMask (params st) (rows g) y = Some m \<and> m \<le> 0
             \<Longrightarrow> activations g' ! nat (int y * cols g + int x)
                 = activations g ! nat (int y * cols g + int x)"
    by blast
  have p: "params st = defaultParams\<lparr>mixGamma := 1\<rparr>" by (simp add: st_def)
  have r0: "activations g' ! 0 = 1 / 2" "activations g' ! Suc 0 = 1 / 2" "activations g' ! 2 = 1 / 2"
    using frozen [of 0 0 0] frozen [of 0 1 0] frozen [of 0 2 0] m
    by (simp_all add: p) (simp_all add: g_def)
  from late g' have r1: "drop 3 (activations g') = [43 / 80, 23 / 40, 23 / 40]" by simp
  from len have l6: "length (activations g') = 6" by (simp add: g_def)
  have "activations g' = take 3 (activations g') @ drop 3 (activations g')" by simp
  also have "take 3 (activations g') = [activations g' ! 0, activations g' ! 1, activations g' ! 2]"
    using l6 by (simp add: take_Suc_conv_app_nth numeral_3_eq_3 numeral_2_eq_2)
  finally have acts: "activations g' = [1 / 2, 1 / 2, 1 / 2, 43 / 80, 23 / 40, 23 / 40]"
    by (simp add: r0 r1)
  show ?thesis
    using d g' m same acts unfolding st_def g_def
    by (intro exI [of _ st'] exI [of _ out] exI [of _ g']) simp
qed

subsection \<open>The activations stay in the unit interval\<close>








text \<open>
  The rounding of the store keeps a number of \<open>[0, 1]\<close> in \<open>[0, 1]\<close>, as 0 and 1 are
  binary32 numbers: this is \<open>float32_unit\<close> above.
\<close>

end
